theory Spec2Isabelle
  imports Complex_Main
begin

section \<open>Number model and array primitives\<close>

text \<open>
  The module \<^verbatim>\<open>numpy_utility.py\<close> computes on numpy floating-point arrays. The
  embedding idealises every floating-point number as an exact \<^typ>\<open>real\<close>: rounding,
  overflow and underflow are not modelled, but for the underflow of \<^verbatim>\<open>np.exp\<close> to zero
  (\<open>exp_underflow\<close> below), which decides whether the renormalisation of
  \<^verbatim>\<open>make_gaussian\<close> divides by zero. Where IEEE arithmetic would produce
  \<^verbatim>\<open>inf\<close> or \<^verbatim>\<open>nan\<close> out of a division by zero, exact reals have no such value,
  and the model stops with the error \<open>NonFinite\<close> instead of continuing as numpy does.
  The other errors are the exceptions of Python and numpy. A two-dimensional array is a
  list of rows.
\<close>

datatype error = AssertionError | ValueError | NonFinite | ZeroDivisionError | NameError

type_synonym array2 = "real list list"

text \<open>
  \<^verbatim>\<open>dtype\<close> is the precision argument (\<^verbatim>\<open>np.float32\<close> by default), called as a
  conversion and passed to \<^verbatim>\<open>astype\<close>. On exact reals a change of precision changes
  nothing.
\<close>

definition dtype :: "real \<Rightarrow> real" where
  "dtype v = v"

text \<open>
  \<^verbatim>\<open>np.arange(start, stop, step)\<close>: the \<open>\<lceil>(stop - start) / step\<rceil>\<close> values
  \<open>start + i * step\<close>; a zero step is refused by numpy.
\<close>

definition arange :: "real \<Rightarrow> real \<Rightarrow> real \<Rightarrow> error + real list" where
  "arange start stop step =
     (if step = 0 then Inl ValueError
      else Inr (map (\<lambda>i. start + real i * step) [0..<nat \<lceil>(stop - start) / step\<rceil>]))"

text \<open>
  \<^verbatim>\<open>np.meshgrid(xs, ys)\<close> with the default \<^verbatim>\<open>xy\<close> indexing: both outputs have
  one row per element of \<open>ys\<close> and one column per element of \<open>xs\<close>.
\<close>

definition meshgrid :: "real list \<Rightarrow> real list \<Rightarrow> array2 \<times> array2" where
  "meshgrid xs ys = (map (\<lambda>_. xs) ys, map (\<lambda>v. map (\<lambda>_. v) xs) ys)"

definition neg :: "array2 \<Rightarrow> array2" where
  "neg M = map (map uminus) M"

definition np_sum :: "array2 \<Rightarrow> real" where
  "np_sum M = sum_list (map sum_list M)"

definition astype :: "array2 \<Rightarrow> array2" where
  "astype M = map (map dtype) M"

section \<open>Gaussian generators\<close>

text \<open>
  \<^verbatim>\<open>make_gaussian(x, y, sigma, n_pix, size=None, dtype=np.float32)\<close>. The argument
  \<open>size\<close> is \<open>None\<close> or a number. With \<open>n_pix = 0\<close> the pixel pitch
  \<^verbatim>\<open>dtype(deg) / n_pix\<close> is a float division by zero, and with \<open>sigma = 0\<close> so is the
  amplitude \<^verbatim>\<open>1. / (d*np.pi)\<close>; so is the renormalisation \<^verbatim>\<open>Zm /= np.sum(Zm)\<close> by a
  zero total, which the code does not guard. The exponential \<^verbatim>\<open>np.exp\<close> is the
  parameter \<open>np_exp\<close>, since whether the total can be zero depends on it alone.
\<close>

definition make_gaussian_with ::
  "(real \<Rightarrow> real) \<Rightarrow> real \<Rightarrow> real \<Rightarrow> real \<Rightarrow> nat \<Rightarrow> real option
     \<Rightarrow> error + (array2 \<times> array2 \<times> array2)" where
  "make_gaussian_with np_exp x y sigma n_pix sz =
     (if n_pix = 0 then Inl NonFinite
      else
        let deg = (case sz of None \<Rightarrow> dtype (real n_pix) | Some s \<Rightarrow> s);
            dpix = dtype deg / real n_pix;
            pix_min = - deg / 2 + 0.5 * dpix;
            pix_max = deg / 2
        in case arange pix_min pix_max dpix of
             Inl e \<Rightarrow> Inl e
           | Inr ax \<Rightarrow>
               let (Xm, Ym) = meshgrid ax ax;
                   d = 2 * (dtype sigma)\<^sup>2
               in if d * pi = 0 then Inl NonFinite
                  else
                    let A = dtype (1 / (d * pi));
                        Zm = map2 (map2 (\<lambda>xm ym.
                               dpix\<^sup>2 * A * np_exp (- ((xm - x)\<^sup>2 + (- ym - y)\<^sup>2) / d))) Xm Ym
                    in if sigma < dpix / 2
                       then (if np_sum Zm = 0 then Inl NonFinite
                             else Inr (Xm, neg Ym, astype (map (map (\<lambda>z. z / np_sum Zm)) Zm)))
                       else Inr (Xm, neg Ym, astype Zm))"

text \<open>
  Two exponentials. With the exact one the generator is \<open>make_gaussian\<close>, the model in
  exact arithmetic that the results on the grid, the stacks and the mass generator are
  about. The other one has the single effect of IEEE arithmetic that changes which branch
  of the renormalisation is reached: binary64 has no positive number below \<open>2 ^ -1074\<close>,
  which is above \<open>exp (-745)\<close>, so \<^verbatim>\<open>np.exp\<close> returns \<^verbatim>\<open>0.0\<close> for every argument below
  \<open>-746\<close> (in binary32 already below \<open>-104\<close>); elsewhere it is kept exact.
\<close>

definition make_gaussian ::
  "real \<Rightarrow> real \<Rightarrow> real \<Rightarrow> nat \<Rightarrow> real option \<Rightarrow> error + (array2 \<times> array2 \<times> array2)" where
  "make_gaussian x y sigma n_pix sz = make_gaussian_with exp x y sigma n_pix sz"

definition exp_underflow :: "real \<Rightarrow> real" where
  "exp_underflow t = (if t < - 746 then 0 else exp t)"

text \<open>
  \<^verbatim>\<open>gaussian_mass(xi, yi, dx, dy, x, y, sigma)\<close>. The error function comes from
  \<^verbatim>\<open>scipy.special\<close>; it is a parameter of the model.
\<close>

definition gaussian_mass ::
  "(real \<Rightarrow> real) \<Rightarrow> real \<Rightarrow> real \<Rightarrow> real \<Rightarrow> real \<Rightarrow> real \<Rightarrow> real \<Rightarrow> real \<Rightarrow> real" where
  "gaussian_mass erf xi yi dx dy x y sigma =
     0.25 * (erf ((xi - x + dx / 2) / (sqrt 2 * sigma)) - erf ((xi - x - dx / 2) / (sqrt 2 * sigma)))
          * (erf ((yi - y + dy / 2) / (sqrt 2 * sigma)) - erf ((yi - y - dy / 2) / (sqrt 2 * sigma)))"

text \<open>
  \<^verbatim>\<open>make_gaussian_mass(x, y, sigma, n_pix, size=None, dtype=np.float32)\<close>. In the first
  branch \<open>sigma = 0\<close> divides by zero inside \<^verbatim>\<open>gaussian_mass\<close>, in the second in the
  amplitude.
\<close>

definition make_gaussian_mass ::
  "(real \<Rightarrow> real) \<Rightarrow> real \<Rightarrow> real \<Rightarrow> real \<Rightarrow> nat \<Rightarrow> real option
     \<Rightarrow> error + (array2 \<times> array2 \<times> array2)" where
  "make_gaussian_mass erf x y sigma n_pix sz =
     (if n_pix = 0 then Inl NonFinite
      else
        let deg = (case sz of None \<Rightarrow> dtype (real n_pix) | Some s \<Rightarrow> s);
            dpix = dtype deg / real n_pix;
            pix_min = - deg / 2 + 0.5 * dpix;
            pix_max = deg / 2
        in case arange pix_min pix_max dpix of
             Inl e \<Rightarrow> Inl e
           | Inr ax \<Rightarrow>
               let (Xm, Ym) = meshgrid ax ax
               in if sigma < dpix
                  then (if sqrt 2 * sigma = 0 then Inl NonFinite
                        else
                          let g_mass = (\<lambda>a b. gaussian_mass erf a b dpix dpix x y sigma);
                              Zm = map2 (map2 g_mass) Xm (neg Ym)
                          in Inr (Xm, neg Ym, astype Zm))
                  else
                    let d = 2 * (dtype sigma)\<^sup>2
                    in if d * pi = 0 then Inl NonFinite
                       else
                         let A = dtype (1 / (d * pi));
                             Zm = map2 (map2 (\<lambda>xm ym.
                                    dpix\<^sup>2 * A * exp (- ((xm - x)\<^sup>2 + (- ym - y)\<^sup>2) / d))) Xm Ym
                         in Inr (Xm, neg Ym, astype Zm))"

text \<open>
  Names for what both generators compute on their first lines: the extent \<open>deg\<close>, the
  pixel pitch \<open>dpix\<close> and the \<open>i\<close>-th axis sample \<open>pix_min + i * dpix\<close>. The arrays
  below are the closed forms of the grid and of the two fields over these samples; the
  lemmas of the next part show that the generators return them.
\<close>

definition deg :: "nat \<Rightarrow> real option \<Rightarrow> real" where
  "deg n_pix sz = (case sz of None \<Rightarrow> dtype (real n_pix) | Some s \<Rightarrow> s)"

definition pixel_pitch :: "nat \<Rightarrow> real option \<Rightarrow> real" where
  "pixel_pitch n_pix sz = dtype (deg n_pix sz) / real n_pix"

definition axis_sample :: "nat \<Rightarrow> real option \<Rightarrow> nat \<Rightarrow> real" where
  "axis_sample n_pix sz i =
     - deg n_pix sz / 2 + 0.5 * pixel_pitch n_pix sz + real i * pixel_pitch n_pix sz"

definition grid_X :: "nat \<Rightarrow> real option \<Rightarrow> array2" where
  "grid_X n_pix sz = map (\<lambda>r. map (\<lambda>c. axis_sample n_pix sz c) [0..<n_pix]) [0..<n_pix]"

definition grid_Y :: "nat \<Rightarrow> real option \<Rightarrow> array2" where
  "grid_Y n_pix sz = map (\<lambda>r. map (\<lambda>c. - axis_sample n_pix sz r) [0..<n_pix]) [0..<n_pix]"

definition point_field :: "real \<Rightarrow> real \<Rightarrow> real \<Rightarrow> nat \<Rightarrow> real option \<Rightarrow> array2" where
  "point_field x y sigma n_pix sz =
     map (\<lambda>r. map (\<lambda>c. (pixel_pitch n_pix sz)\<^sup>2 * (1 / (2 * sigma\<^sup>2 * pi))
                    * exp (- ((axis_sample n_pix sz c - x)\<^sup>2 + (- axis_sample n_pix sz r - y)\<^sup>2)
                           / (2 * sigma\<^sup>2))) [0..<n_pix]) [0..<n_pix]"

definition mass_field ::
  "(real \<Rightarrow> real) \<Rightarrow> real \<Rightarrow> real \<Rightarrow> real \<Rightarrow> nat \<Rightarrow> real option \<Rightarrow> array2" where
  "mass_field erf x y sigma n_pix sz =
     map (\<lambda>r. map (\<lambda>c. gaussian_mass erf (axis_sample n_pix sz c) (- axis_sample n_pix sz r)
                      (pixel_pitch n_pix sz) (pixel_pitch n_pix sz) x y sigma) [0..<n_pix])
       [0..<n_pix]"

section \<open>Stacking wrappers\<close>

text \<open>
  \<^verbatim>\<open>Z[i,:,:] = F\<close> for a layer \<open>F\<close> returned by a generator: numpy stores a layer of
  the stack's own shape \<open>(n_pix, n_pix)\<close> and refuses one of another size.
\<close>

definition set_layer :: "array2 list \<Rightarrow> nat \<Rightarrow> nat \<Rightarrow> array2 \<Rightarrow> error + array2 list" where
  "set_layer Z n_pix i F =
     (if length F = n_pix \<and> list_all (\<lambda>row. length row = n_pix) F
      then Inr (Z[i := F]) else Inl ValueError)"

text \<open>
  The loop \<^verbatim>\<open>for i in range(1, stack_size)\<close> of both wrappers; \<open>gen i\<close> is the call of
  the single-instance generator on the \<open>i\<close>-th triple. An error of a call ends the loop.
\<close>

fun stack_loop ::
  "(nat \<Rightarrow> error + (array2 \<times> array2 \<times> array2)) \<Rightarrow> nat \<Rightarrow> nat list \<Rightarrow> array2 list
     \<Rightarrow> error + array2 list" where
  "stack_loop gen n_pix [] Z = Inr Z"
| "stack_loop gen n_pix (i # is) Z =
     (case gen i of
        Inl e \<Rightarrow> Inl e
      | Inr (_, _, F) \<Rightarrow>
          (case set_layer Z n_pix i F of
             Inl e \<Rightarrow> Inl e
           | Inr Z' \<Rightarrow> stack_loop gen n_pix is Z'))"

text \<open>
  \<^verbatim>\<open>make_gaussian_stack(xs, ys, sigmas, n_pix, size=None, dtype=np.float32)\<close>. The
  uninitialised \<^verbatim>\<open>np.ndarray\<close> is modelled as zeros; every layer is overwritten.
\<close>

definition make_gaussian_stack ::
  "real list \<Rightarrow> real list \<Rightarrow> real list \<Rightarrow> nat \<Rightarrow> real option
     \<Rightarrow> error + (array2 \<times> array2 \<times> array2 list)" where
  "make_gaussian_stack xs ys sigmas n_pix sz =
     (let stack_size = min (length xs) (min (length ys) (length sigmas))
      in if \<not> 0 < stack_size then Inl AssertionError
         else
           let Z = replicate stack_size (replicate n_pix (replicate n_pix 0))
           in case make_gaussian (xs ! 0) (ys ! 0) (sigmas ! 0) n_pix sz of
                Inl e \<Rightarrow> Inl e
              | Inr (X, Y, F) \<Rightarrow>
                  (case set_layer Z n_pix 0 F of
                     Inl e \<Rightarrow> Inl e
                   | Inr Z0 \<Rightarrow>
                       (case stack_loop (\<lambda>i. make_gaussian (xs ! i) (ys ! i) (sigmas ! i) n_pix sz)
                               n_pix [1..<stack_size] Z0 of
                          Inl e \<Rightarrow> Inl e
                        | Inr Z' \<Rightarrow> Inr (X, Y, Z'))))"

definition make_gaussian_mass_stack ::
  "(real \<Rightarrow> real) \<Rightarrow> real list \<Rightarrow> real list \<Rightarrow> real list \<Rightarrow> nat \<Rightarrow> real option
     \<Rightarrow> error + (array2 \<times> array2 \<times> array2 list)" where
  "make_gaussian_mass_stack erf xs ys sigmas n_pix sz =
     (let stack_size = min (length xs) (min (length ys) (length sigmas))
      in if \<not> 0 < stack_size then Inl AssertionError
         else
           let Z = replicate stack_size (replicate n_pix (replicate n_pix 0))
           in case make_gaussian_mass erf (xs ! 0) (ys ! 0) (sigmas ! 0) n_pix sz of
                Inl e \<Rightarrow> Inl e
              | Inr (X, Y, F) \<Rightarrow>
                  (case set_layer Z n_pix 0 F of
                     Inl e \<Rightarrow> Inl e
                   | Inr Z0 \<Rightarrow>
                       (case stack_loop
                               (\<lambda>i. make_gaussian_mass erf (xs ! i) (ys ! i) (sigmas ! i) n_pix sz)
                               n_pix [1..<stack_size] Z0 of
                          Inl e \<Rightarrow> Inl e
                        | Inr Z' \<Rightarrow> Inr (X, Y, Z'))))"

section \<open>Tiles and mosaics\<close>

text \<open>
  The slice assignment \<^verbatim>\<open>M[r0:r0+h, c0:c0+w] = T\<close> for an \<open>h\<close> by \<open>w\<close> block \<open>T\<close> that
  fits into \<open>M\<close>. Both callers below only place blocks that fit (lemmas \<open>tile_fits\<close>
  and \<open>block_fits\<close>).
\<close>

definition set_block :: "'a list list \<Rightarrow> nat \<Rightarrow> nat \<Rightarrow> 'a list list \<Rightarrow> 'a list list" where
  "set_block M r0 c0 T =
     map (\<lambda>i. if r0 \<le> i \<and> i < r0 + length T
              then map (\<lambda>j. if c0 \<le> j \<and> j < c0 + length (T ! (i - r0))
                             then T ! (i - r0) ! (j - c0) else M ! i ! j)
                     [0..<length (M ! i)]
              else M ! i)
       [0..<length M]"

text \<open>
  A four-dimensional array with its shape, which the nested lists alone do not
  determine when a dimension is zero.
\<close>

record ndarray4 =
  shape :: "nat \<times> nat \<times> nat \<times> nat"
  elems :: "real list list list list"

definition wf_ndarray4 :: "ndarray4 \<Rightarrow> bool" where
  "wf_ndarray4 a =
     (case shape a of (d0, d1, d2, d3) \<Rightarrow>
        length (elems a) = d0
        \<and> list_all (\<lambda>e. length e = d1
             \<and> list_all (\<lambda>p. length p = d2 \<and> list_all (\<lambda>row. length row = d3) p) e) (elems a))"

text \<open>
  The process-wide random source of \<^verbatim>\<open>np.random\<close> is a stream of raw draws, passed in
  and returned. \<^verbatim>\<open>np.random.randint(low, high, size=n)\<close> returns \<open>n\<close> integers of
  \<open>[low, high)\<close> and raises \<^verbatim>\<open>ValueError\<close> when \<open>low \<ge> high\<close>; for \<open>n = 0\<close> it returns
  the empty array before it looks at the range, and draws nothing.
\<close>

type_synonym rng = "nat \<Rightarrow> nat"

definition randint :: "rng \<Rightarrow> int \<Rightarrow> int \<Rightarrow> nat \<Rightarrow> error + (int list \<times> rng)" where
  "randint g low high n =
     (if n = 0 then Inr ([], g)
      else if low \<ge> high then Inl ValueError
      else Inr (map (\<lambda>i. low + int (g i mod nat (high - low))) [0..<n], \<lambda>i. g (i + n)))"

text \<open>
  \<^verbatim>\<open>A[b, :, px:px+dx, py:py+dx] = tile[b,...]\<close>: the target is \<open>dx\<close> by \<open>dx\<close> in every
  feature plane; a tile of width \<open>dx\<close> is stored as it is, a tile of width 1 is broadcast
  along the columns, any other width is refused.
\<close>

definition assign_tile :: "ndarray4 \<Rightarrow> nat \<Rightarrow> nat \<Rightarrow> nat \<Rightarrow> ndarray4 \<Rightarrow> error + ndarray4" where
  "assign_tile A b px py tile =
     (case shape tile of (_, _, dx, dy) \<Rightarrow>
        if dy = dx
        then Inr (A\<lparr>elems := (elems A)[b :=
                    map2 (\<lambda>plane t. set_block plane px py t) (elems A ! b) (elems tile ! b)]\<rparr>)
        else if dy = 1
        then Inr (A\<lparr>elems := (elems A)[b :=
                    map2 (\<lambda>plane t. set_block plane px py (map (\<lambda>row. replicate dx (row ! 0)) t))
                      (elems A ! b) (elems tile ! b)]\<rparr>)
        else Inl ValueError)"

fun place_loop :: "ndarray4 \<Rightarrow> int list \<Rightarrow> int list \<Rightarrow> nat list \<Rightarrow> ndarray4 \<Rightarrow> error + ndarray4" where
  "place_loop tile pos_x pos_y [] A = Inr A"
| "place_loop tile pos_x pos_y (b # bs) A =
     (case assign_tile A b (nat (pos_x ! b)) (nat (pos_y ! b)) tile of
        Inl e \<Rightarrow> Inl e
      | Inr A' \<Rightarrow> place_loop tile pos_x pos_y bs A')"

text \<open>\<^verbatim>\<open>place_tile_in(tile, new_npx)\<close>, with the random source made explicit.\<close>

definition place_tile_in :: "rng \<Rightarrow> ndarray4 \<Rightarrow> nat \<Rightarrow> error + (ndarray4 \<times> rng)" where
  "place_tile_in g tile new_npx =
     (case shape tile of (batch_size, features, dx, _) \<Rightarrow>
        let A = \<lparr>shape = (batch_size, features, new_npx, new_npx),
                 elems = replicate batch_size
                           (replicate features (replicate new_npx (replicate new_npx 0)))\<rparr>;
            max_x = int new_npx - int dx
        in case randint g 0 max_x batch_size of
             Inl e \<Rightarrow> Inl e
           | Inr (pos_x, g1) \<Rightarrow>
               (case randint g1 0 max_x batch_size of
                  Inl e \<Rightarrow> Inl e
                | Inr (pos_y, g2) \<Rightarrow>
                    (case place_loop tile pos_x pos_y [0..<batch_size] A of
                       Inl e \<Rightarrow> Inl e
                     | Inr A' \<Rightarrow> Inr (A', g2))))"

text \<open>
  \<^verbatim>\<open>mosaic_vis(X, pad=0, save_path=None)\<close>. The batch has three axes (grey images) or
  four (images with channels); \<open>pad\<close> is a natural number. The loop
  \<^verbatim>\<open>while x*y<n: y+=1\<close> need not end for arbitrary \<open>x\<close>, so it is a partial function
  and \<open>None\<close> stands for a run that does not return.
\<close>

datatype batch = Batch3 "real list list list" | Batch4 "real list list list list"

datatype image = Image2 "real list list" | Image3 "real list list list"

partial_function (option) rows_loop :: "nat \<Rightarrow> nat \<Rightarrow> nat \<Rightarrow> nat option" where
  "rows_loop x y n = (if x * y < n then rows_loop x (y + 1) n else Some y)"

text \<open>
  The loop \<^verbatim>\<open>for k,s in enumerate(S)\<close>, the same in both branches but for the pixel
  type: image \<open>k\<close> goes to the block of row \<open>j = k // x\<close> and column \<open>i = k % x\<close>.
\<close>

fun tile_loop ::
  "nat \<Rightarrow> nat \<Rightarrow> nat \<Rightarrow> nat \<Rightarrow> (nat \<times> 'p list list) list \<Rightarrow> 'p list list \<Rightarrow> 'p list list" where
  "tile_loop x h w pad [] img = img"
| "tile_loop x h w pad ((k, s) # rest) img =
     (let j = k div x; i = k mod x
      in tile_loop x h w pad rest (set_block img (j * pad + j * h) (i * pad + i * w) s))"

text \<open>
  \<^verbatim>\<open>np.amin\<close> and \<^verbatim>\<open>np.amax\<close> raise \<^verbatim>\<open>ValueError\<close> on an array without elements;
  \<open>xmax - xmin = 0\<close> makes the normalisation a division of zero by zero; \<^verbatim>\<open>n // x\<close>
  raises on \<open>x = 0\<close>; and \<^verbatim>\<open>imsave\<close> is a name the module never binds. The square
  root of \<^verbatim>\<open>np.float32(n)\<close> is the exact one.
\<close>

definition mosaic_vis :: "batch \<Rightarrow> nat \<Rightarrow> string option \<Rightarrow> (error + image) option" where
  "mosaic_vis X pad save_path =
     (case X of
        Batch3 X3 \<Rightarrow>
          (let vals = concat (concat X3)
           in if vals = [] then Some (Inl ValueError)
              else
                let xmin = Min (set vals); xmax = Max (set vals)
                in if xmax - xmin = 0 then Some (Inl NonFinite)
                   else
                     let S = map (map (map (\<lambda>v. (v - xmin) / (xmax - xmin)))) X3;
                         n = length X3;
                         x = nat \<lceil>sqrt (real n)\<rceil>
                     in if x = 0 then Some (Inl ZeroDivisionError)
                        else
                          (case rows_loop x (n div x) n of
                             None \<Rightarrow> None
                           | Some y \<Rightarrow>
                               let h = length (X3 ! 0); w = length (X3 ! 0 ! 0);
                                   img = tile_loop x h w pad (enumerate 0 S)
                                           (replicate (h * y + (y - 1) * pad)
                                              (replicate (w * x + (x - 1) * pad) 0))
                               in if save_path \<noteq> None then Some (Inl NameError)
                                  else Some (Inr (Image2 img))))
      | Batch4 X4 \<Rightarrow>
          (let vals = concat (concat (concat X4))
           in if vals = [] then Some (Inl ValueError)
              else
                let xmin = Min (set vals); xmax = Max (set vals)
                in if xmax - xmin = 0 then Some (Inl NonFinite)
                   else
                     let S = map (map (map (map (\<lambda>v. (v - xmin) / (xmax - xmin))))) X4;
                         n = length X4;
                         x = nat \<lceil>sqrt (real n)\<rceil>
                     in if x = 0 then Some (Inl ZeroDivisionError)
                        else
                          (case rows_loop x (n div x) n of
                             None \<Rightarrow> None
                           | Some y \<Rightarrow>
                               let h = length (X4 ! 0); w = length (X4 ! 0 ! 0);
                                   img = tile_loop x h w pad (enumerate 0 S)
                                           (replicate (h * y + (y - 1) * pad)
                                              (replicate (w * x + (x - 1) * pad)
                                                 (replicate (length (X4 ! 0 ! 0 ! 0)) 0)))
                               in if save_path \<noteq> None then Some (Inl NameError)
                                  else Some (Inr (Image3 img)))))"

section \<open>What the generators return\<close>

lemma arange_axis:
  assumes "0 < n_pix" and "sz \<noteq> Some 0"
  shows "arange (- (case sz of None \<Rightarrow> dtype (real n_pix) | Some s \<Rightarrow> s) / 2
                   + 0.5 * (dtype (case sz of None \<Rightarrow> dtype (real n_pix) | Some s \<Rightarrow> s) / real n_pix))
                ((case sz of None \<Rightarrow> dtype (real n_pix) | Some s \<Rightarrow> s) / 2)
                (dtype (case sz of None \<Rightarrow> dtype (real n_pix) | Some s \<Rightarrow> s) / real n_pix)
         = Inr (map (axis_sample n_pix sz) [0..<n_pix])"
proof -
  define d where "d = (case sz of None \<Rightarrow> dtype (real n_pix) | Some s \<Rightarrow> s)"
  have d0: "d \<noteq> 0"
    using assms by (auto simp: d_def dtype_def split: option.splits)
  have n0: "real n_pix \<noteq> 0" using assms by simp
  have q: "(d / 2 - (- d / 2 + 0.5 * (d / real n_pix))) / (d / real n_pix)
           = real n_pix - 1 / 2"
    using d0 n0 by (simp add: field_simps)
  have c: "\<lceil>real n_pix - 1 / 2\<rceil> = int n_pix"
    by (rule ceiling_unique) simp_all
  show ?thesis
    unfolding arange_def axis_sample_def pixel_pitch_def deg_def d_def [symmetric]
    using d0 n0 q c by (simp add: dtype_def)
qed

lemma map2_same: "map2 f (map g xs) (map h xs) = map (\<lambda>v. f (g v) (h v)) xs"
  by (induction xs) auto

lemma mesh_grid:
  "meshgrid (map f [0..<n]) (map f [0..<n]) =
     (map (\<lambda>r. map f [0..<n]) [0..<n], map (\<lambda>r. map (\<lambda>c. f r) [0..<n]) [0..<n])"
  by (simp add: meshgrid_def comp_def)

lemma map2_grid:
  "map2 (map2 g) (map (\<lambda>r. map f [0..<n]) [0..<n]) (map (\<lambda>r. map (\<lambda>c. h r) [0..<n]) [0..<n])
   = map (\<lambda>r. map (\<lambda>c. g (f c) (h r)) [0..<n]) [0..<n]"
proof -
  have "map2 g (map f [0..<n]) (map (\<lambda>c. h r) [0..<n]) = map (\<lambda>c. g (f c) (h r)) [0..<n]" for r
    by (rule map2_same)
  then show ?thesis
    using map2_same [of "map2 g" "\<lambda>r. map f [0..<n]" "[0..<n]" "\<lambda>r. map (\<lambda>c. h r) [0..<n]"]
    by simp
qed

lemma astype_id: "astype M = M"
  by (simp add: astype_def dtype_def cong: map_cong)

lemma sum_list_pos_real:
  "xs \<noteq> [] \<Longrightarrow> (\<And>v. v \<in> set xs \<Longrightarrow> (0::real) < v) \<Longrightarrow> 0 < sum_list xs"
proof (induction xs)
  case Nil
  then show ?case by simp
next
  case (Cons a xs)
  show ?case
  proof (cases "xs = []")
    case True
    with Cons.prems show ?thesis by simp
  next
    case False
    with Cons have "0 < sum_list xs" by simp
    moreover have "0 < a" using Cons.prems by simp
    ultimately show ?thesis by simp
  qed
qed

lemma np_sum_pos:
  assumes "M \<noteq> []" and "\<And>row. row \<in> set M \<Longrightarrow> row \<noteq> [] \<and> (\<forall>v \<in> set row. 0 < v)"
  shows "0 < np_sum M"
  unfolding np_sum_def
proof (rule sum_list_pos_real)
  show "map sum_list M \<noteq> []" using assms(1) by simp
next
  fix v assume "v \<in> set (map sum_list M)"
  then obtain row where "row \<in> set M" "v = sum_list row" by auto
  with assms(2) show "0 < v" by (auto intro: sum_list_pos_real)
qed

lemma pixel_pitch_nonzero:
  "0 < n_pix \<Longrightarrow> sz \<noteq> Some 0 \<Longrightarrow> pixel_pitch n_pix sz \<noteq> 0"
  by (auto simp: pixel_pitch_def deg_def dtype_def split: option.splits)

lemma point_field_pos:
  assumes "0 < n_pix" "sz \<noteq> Some 0" "sigma \<noteq> 0"
  shows "0 < np_sum (point_field x y sigma n_pix sz)"
proof (rule np_sum_pos)
  show "point_field x y sigma n_pix sz \<noteq> []"
    using assms(1) by (simp add: point_field_def)
next
  fix row assume "row \<in> set (point_field x y sigma n_pix sz)"
  then show "row \<noteq> [] \<and> (\<forall>v\<in>set row. 0 < v)"
    using assms pixel_pitch_nonzero [OF assms(1,2)] by (auto simp: point_field_def)
qed

lemma make_gaussian_valid:
  assumes "0 < n_pix" "sz \<noteq> Some 0" "sigma \<noteq> 0"
  shows "make_gaussian x y sigma n_pix sz =
           Inr (grid_X n_pix sz, grid_Y n_pix sz,
                if sigma < pixel_pitch n_pix sz / 2
                then map (map (\<lambda>z. z / np_sum (point_field x y sigma n_pix sz)))
                       (point_field x y sigma n_pix sz)
                else point_field x y sigma n_pix sz)"
proof -
  have ng: "neg (map (\<lambda>r. map (\<lambda>c. axis_sample n_pix sz r) [0..<n_pix]) [0..<n_pix])
            = grid_Y n_pix sz"
    by (simp add: neg_def grid_Y_def comp_def)
  have pos: "np_sum (point_field x y sigma n_pix sz) \<noteq> 0"
    using point_field_pos [OF assms, of x y] by simp
  show ?thesis
    unfolding make_gaussian_def make_gaussian_with_def Let_def
    apply (subst arange_axis [OF assms(1,2)])
    using assms(1,3) pos
    apply (simp add: mesh_grid map2_grid astype_id ng)
    apply (simp add: grid_X_def point_field_def pixel_pitch_def deg_def dtype_def power2_eq_square)
    done
qed

lemma make_gaussian_mass_valid:
  assumes "0 < n_pix" "sz \<noteq> Some 0" "sigma \<noteq> 0"
  shows "make_gaussian_mass erf x y sigma n_pix sz =
           Inr (grid_X n_pix sz, grid_Y n_pix sz,
                if sigma < pixel_pitch n_pix sz
                then mass_field erf x y sigma n_pix sz
                else point_field x y sigma n_pix sz)"
proof -
  have ng: "neg (map (\<lambda>r. map (\<lambda>c. axis_sample n_pix sz r) [0..<n_pix]) [0..<n_pix])
            = map (\<lambda>r. map (\<lambda>c. - axis_sample n_pix sz r) [0..<n_pix]) [0..<n_pix]"
    by (simp add: neg_def comp_def)
  show ?thesis
    unfolding make_gaussian_mass_def Let_def
    apply (subst arange_axis [OF assms(1,2)])
    using assms(1,3)
    apply (simp add: mesh_grid map2_grid astype_id ng)
    apply (simp add: grid_X_def grid_Y_def point_field_def mass_field_def pixel_pitch_def
             deg_def dtype_def power2_eq_square)
    done
qed

lemma make_gaussian_Inr_valid:
  "make_gaussian x y sigma n_pix sz = Inr r \<Longrightarrow> 0 < n_pix \<and> sz \<noteq> Some 0 \<and> sigma \<noteq> 0"
  by (auto simp: make_gaussian_def make_gaussian_with_def Let_def arange_def dtype_def
           split: if_splits sum.splits prod.splits option.splits)

lemma make_gaussian_mass_Inr_valid:
  "make_gaussian_mass erf x y sigma n_pix sz = Inr r \<Longrightarrow> 0 < n_pix \<and> sz \<noteq> Some 0 \<and> sigma \<noteq> 0"
  by (auto simp: make_gaussian_mass_def Let_def arange_def dtype_def
           split: if_splits sum.splits prod.splits option.splits)

lemma make_gaussian_no_assert:
  "make_gaussian x y sigma n_pix sz \<noteq> Inl AssertionError"
  by (auto simp: make_gaussian_def make_gaussian_with_def Let_def arange_def split: if_splits sum.splits prod.splits)

lemma make_gaussian_mass_no_assert:
  "make_gaussian_mass erf x y sigma n_pix sz \<noteq> Inl AssertionError"
  by (auto simp: make_gaussian_mass_def Let_def arange_def split: if_splits sum.splits prod.splits)

lemma make_gaussian_zero_extent:
  "0 < n_pix \<Longrightarrow> make_gaussian x y sigma n_pix (Some 0) = Inl ValueError"
  by (simp add: make_gaussian_def make_gaussian_with_def Let_def arange_def dtype_def)

lemma make_gaussian_mass_zero_extent:
  "0 < n_pix \<Longrightarrow> make_gaussian_mass erf x y sigma n_pix (Some 0) = Inl ValueError"
  by (simp add: make_gaussian_mass_def Let_def arange_def dtype_def)

section \<open>The mass generator falls back on the point-sampled generator\<close>

text \<open>
  Claim C6. For a positive pixel pitch \<open>dpix = size / n_pix\<close> and every \<open>sigma \<ge> dpix\<close>,
  \<^verbatim>\<open>make_gaussian_mass\<close> returns, and it returns the very triple \<open>(X, Y, Z)\<close> that
  \<^verbatim>\<open>make_gaussian\<close> returns on the same arguments: its second branch is the
  point-sampled field, and the renormalisation of \<^verbatim>\<open>make_gaussian\<close> is not taken
  since \<open>sigma \<ge> dpix > dpix / 2\<close>.
\<close>

theorem mass_fallback_is_make_gaussian:
  assumes "0 < n_pix" and "0 < pixel_pitch n_pix sz" and "pixel_pitch n_pix sz \<le> sigma"
  shows "\<exists>X Y Z. make_gaussian_mass erf x y sigma n_pix sz = Inr (X, Y, Z)
                \<and> make_gaussian x y sigma n_pix sz = Inr (X, Y, Z)"
proof -
  have sz: "sz \<noteq> Some 0"
    using assms(2) by (auto simp: pixel_pitch_def deg_def dtype_def)
  have s0: "sigma \<noteq> 0" using assms by simp
  have "\<not> sigma < pixel_pitch n_pix sz" "\<not> sigma < pixel_pitch n_pix sz / 2"
    using assms by simp_all
  then show ?thesis
    by (simp add: make_gaussian_valid [OF assms(1) sz s0]
                  make_gaussian_mass_valid [OF assms(1) sz s0])
qed

theorem mass_fallback_is_make_gaussian_witness:
  "(0::nat) < 2 \<and> 0 < pixel_pitch 2 None \<and> pixel_pitch 2 None \<le> 1
   \<and> (\<exists>X Y Z. make_gaussian_mass tanh 0 0 1 2 None = Inr (X, Y, Z)
                \<and> make_gaussian 0 0 1 2 None = Inr (X, Y, Z))"
proof -
  have p: "pixel_pitch 2 None = 1" by (simp add: pixel_pitch_def deg_def dtype_def)
  show ?thesis
    using mass_fallback_is_make_gaussian [of 2 None 1 tanh 0 0] by (simp add: p)
qed

section \<open>The coordinate grid\<close>

lemma grid_X_nth: "r < n_pix \<Longrightarrow> c < n_pix \<Longrightarrow> grid_X n_pix sz ! r ! c = axis_sample n_pix sz c"
  by (simp add: grid_X_def)

lemma grid_Y_nth: "r < n_pix \<Longrightarrow> c < n_pix \<Longrightarrow> grid_Y n_pix sz ! r ! c = - axis_sample n_pix sz r"
  by (simp add: grid_Y_def)

lemma grid_lengths:
  "length (grid_X n_pix sz) = n_pix" "length (grid_Y n_pix sz) = n_pix"
  "r < n_pix \<Longrightarrow> length (grid_X n_pix sz ! r) = n_pix"
  "r < n_pix \<Longrightarrow> length (grid_Y n_pix sz ! r) = n_pix"
  by (simp_all add: grid_X_def grid_Y_def)

lemma point_field_nth:
  "r < n_pix \<Longrightarrow> c < n_pix \<Longrightarrow>
   point_field x y sigma n_pix sz ! r ! c =
     (pixel_pitch n_pix sz)\<^sup>2 * (1 / (2 * sigma\<^sup>2 * pi))
       * exp (- ((axis_sample n_pix sz c - x)\<^sup>2 + (- axis_sample n_pix sz r - y)\<^sup>2) / (2 * sigma\<^sup>2))"
  by (simp add: point_field_def)

lemma mass_field_nth:
  "r < n_pix \<Longrightarrow> c < n_pix \<Longrightarrow>
   mass_field erf x y sigma n_pix sz ! r ! c =
     gaussian_mass erf (axis_sample n_pix sz c) (- axis_sample n_pix sz r)
       (pixel_pitch n_pix sz) (pixel_pitch n_pix sz) x y sigma"
  by (simp add: mass_field_def)

lemma field_lengths:
  "length (point_field x y sigma n_pix sz) = n_pix"
  "length (mass_field erf x y sigma n_pix sz) = n_pix"
  "r < n_pix \<Longrightarrow> length (point_field x y sigma n_pix sz ! r) = n_pix"
  "r < n_pix \<Longrightarrow> length (mass_field erf x y sigma n_pix sz ! r) = n_pix"
  by (simp_all add: point_field_def mass_field_def)

lemma axis_sample_mirror:
  assumes "c < n_pix"
  shows "axis_sample n_pix sz (n_pix - Suc c) = - axis_sample n_pix sz c"
proof -
  have n0: "real n_pix \<noteq> 0" using assms by simp
  have d: "deg n_pix sz = pixel_pitch n_pix sz * real n_pix"
    using n0 by (simp add: pixel_pitch_def dtype_def)
  have r: "real (n_pix - Suc c) = real n_pix - 1 - real c"
    using assms by (simp add: of_nat_diff)
  show ?thesis
    unfolding axis_sample_def r d by (simp add: algebra_simps)
qed

lemma axis_sample_mono:
  "0 < pixel_pitch n_pix sz \<Longrightarrow> c < c' \<Longrightarrow> axis_sample n_pix sz c < axis_sample n_pix sz c'"
  by (simp add: axis_sample_def)

text \<open>
  Claim C3. For \<open>n_pix > 0\<close> and a positive pixel pitch \<open>dpix = size / n_pix\<close> (the
  extent \<open>size\<close> being \<open>n_pix\<close> when it is not given), both generators return the same
  grid \<open>(X, Y)\<close> of \<open>n_pix\<close> rows and \<open>n_pix\<close> columns. The samples start at
  \<open>- size / 2 + dpix / 2\<close> and step by \<open>dpix\<close>; they are symmetric about zero; \<open>X\<close> is
  the same in every row and strictly increasing with the column; the second output
  \<open>Y\<close> (the negated meshgrid output) is the same in every column and strictly
  decreasing with the row.
\<close>

theorem coordinate_grid:
  assumes "0 < n_pix" and "0 < pixel_pitch n_pix sz" and "sigma \<noteq> 0"
  shows "\<exists>X Y Z Z'.
           make_gaussian x y sigma n_pix sz = Inr (X, Y, Z)
         \<and> make_gaussian_mass erf x y sigma n_pix sz = Inr (X, Y, Z')
         \<and> deg n_pix None = real n_pix
         \<and> length X = n_pix \<and> length Y = n_pix
         \<and> (\<forall>r<n_pix. length (X ! r) = n_pix \<and> length (Y ! r) = n_pix)
         \<and> (\<forall>r<n_pix. \<forall>c<n_pix.
               X ! r ! c = - deg n_pix sz / 2 + pixel_pitch n_pix sz / 2
                             + real c * pixel_pitch n_pix sz
             \<and> Y ! r ! c = - (- deg n_pix sz / 2 + pixel_pitch n_pix sz / 2
                                + real r * pixel_pitch n_pix sz))
         \<and> (\<forall>r<n_pix. \<forall>c<n_pix.
               X ! r ! (n_pix - 1 - c) = - (X ! r ! c) \<and> Y ! (n_pix - 1 - r) ! c = - (Y ! r ! c))
         \<and> (\<forall>r<n_pix. \<forall>r'<n_pix. \<forall>c<n_pix. X ! r ! c = X ! r' ! c)
         \<and> (\<forall>r<n_pix. \<forall>c<n_pix. \<forall>c'<n_pix. c < c' \<longrightarrow> X ! r ! c < X ! r ! c')
         \<and> (\<forall>r<n_pix. \<forall>c<n_pix. \<forall>c'<n_pix. Y ! r ! c = Y ! r ! c')
         \<and> (\<forall>r<n_pix. \<forall>r'<n_pix. \<forall>c<n_pix. r < r' \<longrightarrow> Y ! r' ! c < Y ! r ! c)"
proof -
  have sz: "sz \<noteq> Some 0"
    using assms(2) by (auto simp: pixel_pitch_def deg_def dtype_def)
  note mg = make_gaussian_valid [OF assms(1) sz assms(3), of x y]
  note mm = make_gaussian_mass_valid [OF assms(1) sz assms(3), of erf x y]
  have a: "deg n_pix None = real n_pix" by (simp add: deg_def dtype_def)
  have b: "\<forall>r<n_pix. length (grid_X n_pix sz ! r) = n_pix \<and> length (grid_Y n_pix sz ! r) = n_pix"
    by (simp add: grid_lengths)
  have c: "\<forall>r<n_pix. \<forall>c<n_pix.
               grid_X n_pix sz ! r ! c = - deg n_pix sz / 2 + pixel_pitch n_pix sz / 2
                             + real c * pixel_pitch n_pix sz
             \<and> grid_Y n_pix sz ! r ! c = - (- deg n_pix sz / 2 + pixel_pitch n_pix sz / 2
                                + real r * pixel_pitch n_pix sz)"
    by (simp add: grid_X_nth grid_Y_nth axis_sample_def)
  have d: "\<forall>r<n_pix. \<forall>c<n_pix.
               grid_X n_pix sz ! r ! (n_pix - 1 - c) = - (grid_X n_pix sz ! r ! c)
             \<and> grid_Y n_pix sz ! (n_pix - 1 - r) ! c = - (grid_Y n_pix sz ! r ! c)"
    by (simp add: grid_X_nth grid_Y_nth axis_sample_mirror)
  have e: "\<forall>r<n_pix. \<forall>r'<n_pix. \<forall>c<n_pix. grid_X n_pix sz ! r ! c = grid_X n_pix sz ! r' ! c"
    by (simp add: grid_X_nth)
  have f: "\<forall>r<n_pix. \<forall>c<n_pix. \<forall>c'<n_pix. c < c' \<longrightarrow> grid_X n_pix sz ! r ! c < grid_X n_pix sz ! r ! c'"
    using assms(2) by (simp add: grid_X_nth axis_sample_mono)
  have g: "\<forall>r<n_pix. \<forall>c<n_pix. \<forall>c'<n_pix. grid_Y n_pix sz ! r ! c = grid_Y n_pix sz ! r ! c'"
    by (simp add: grid_Y_nth)
  have h: "\<forall>r<n_pix. \<forall>r'<n_pix. \<forall>c<n_pix. r < r' \<longrightarrow> grid_Y n_pix sz ! r' ! c < grid_Y n_pix sz ! r ! c"
    using assms(2) by (simp add: grid_Y_nth axis_sample_mono)
  from mg mm a b c d e f g h grid_lengths(1,2) [of n_pix sz] show ?thesis
    by blast
qed


theorem coordinate_grid_witness:
  "(0::nat) < 2 \<and> 0 < pixel_pitch 2 None \<and> (1::real) \<noteq> 0
   \<and> (\<exists>X Y Z Z'. make_gaussian 0 0 1 2 None = Inr (X, Y, Z)
         \<and> make_gaussian_mass tanh 0 0 1 2 None = Inr (X, Y, Z')
         \<and> length X = 2 \<and> length Y = 2
         \<and> X ! 0 ! 0 = - 1 / 2 \<and> X ! 0 ! 1 = 1 / 2 \<and> X ! 1 ! 0 = - 1 / 2
         \<and> Y ! 0 ! 0 = 1 / 2 \<and> Y ! 1 ! 0 = - 1 / 2 \<and> Y ! 0 ! 1 = 1 / 2)"
proof -
  have d: "deg 2 None = 2" by (simp add: deg_def dtype_def)
  have p: "pixel_pitch 2 None = 1" by (simp add: pixel_pitch_def d dtype_def)
  have pre: "(0::nat) < 2" "0 < pixel_pitch 2 None" "(1::real) \<noteq> 0" by (simp_all add: p)
  from coordinate_grid [OF pre, of 0 0 tanh] obtain X Y Z Z' where
    a: "make_gaussian 0 0 1 2 None = Inr (X, Y, Z)" and
    b: "make_gaussian_mass tanh 0 0 1 2 None = Inr (X, Y, Z')" and
    l: "length X = 2" "length Y = 2" and
    v: "\<forall>r<2. \<forall>c<2. X ! r ! c = - deg 2 None / 2 + pixel_pitch 2 None / 2
                             + real c * pixel_pitch 2 None
             \<and> Y ! r ! c = - (- deg 2 None / 2 + pixel_pitch 2 None / 2
                                + real r * pixel_pitch 2 None)"
    by (elim exE conjE) (rule that, assumption+)
  have "X ! 0 ! 0 = - 1 / 2" "X ! 0 ! 1 = 1 / 2" "X ! 1 ! 0 = - 1 / 2"
       "Y ! 0 ! 0 = 1 / 2" "Y ! 1 ! 0 = - 1 / 2" "Y ! 0 ! 1 = 1 / 2"
    using v by (simp_all add: p d)
  with a b l pre show ?thesis by blast
qed

section \<open>The grid does not depend on the Gaussian parameters\<close>

text \<open>
  Claim C10. For \<open>n_pix > 0\<close>, every extent and any two parameter triples
  \<open>(x, y, sigma)\<close> and \<open>(x', y', sigma')\<close> with non-zero \<open>sigma\<close> and \<open>sigma'\<close>, the
  two calls of \<^verbatim>\<open>make_gaussian\<close> and the two calls of \<^verbatim>\<open>make_gaussian_mass\<close> all
  return the same first two arrays, which are \<open>grid_X n_pix sz\<close> and \<open>grid_Y n_pix sz\<close>:
  terms in which no Gaussian parameter occurs. The one exception is the extent zero, where
  all four calls fail alike on the zero step of \<^verbatim>\<open>np.arange\<close>.
\<close>

theorem grid_independent_of_parameters:
  assumes "0 < n_pix" and "sigma \<noteq> 0" and "sigma' \<noteq> 0"
  shows "(sz = Some 0 \<longrightarrow>
            make_gaussian x y sigma n_pix sz = Inl ValueError
          \<and> make_gaussian x' y' sigma' n_pix sz = Inl ValueError
          \<and> make_gaussian_mass erf x y sigma n_pix sz = Inl ValueError
          \<and> make_gaussian_mass erf x' y' sigma' n_pix sz = Inl ValueError)
       \<and> (sz \<noteq> Some 0 \<longrightarrow>
            (\<exists>Z Z' M M'.
               make_gaussian x y sigma n_pix sz = Inr (grid_X n_pix sz, grid_Y n_pix sz, Z)
             \<and> make_gaussian x' y' sigma' n_pix sz = Inr (grid_X n_pix sz, grid_Y n_pix sz, Z')
             \<and> make_gaussian_mass erf x y sigma n_pix sz
                 = Inr (grid_X n_pix sz, grid_Y n_pix sz, M)
             \<and> make_gaussian_mass erf x' y' sigma' n_pix sz
                 = Inr (grid_X n_pix sz, grid_Y n_pix sz, M')))"
proof (intro conjI impI)
  assume sz: "sz \<noteq> Some 0"
  show "\<exists>Z Z' M M'.
               make_gaussian x y sigma n_pix sz = Inr (grid_X n_pix sz, grid_Y n_pix sz, Z)
             \<and> make_gaussian x' y' sigma' n_pix sz = Inr (grid_X n_pix sz, grid_Y n_pix sz, Z')
             \<and> make_gaussian_mass erf x y sigma n_pix sz
                 = Inr (grid_X n_pix sz, grid_Y n_pix sz, M)
             \<and> make_gaussian_mass erf x' y' sigma' n_pix sz
                 = Inr (grid_X n_pix sz, grid_Y n_pix sz, M')"
    by (simp add: make_gaussian_valid [OF assms(1) sz] make_gaussian_mass_valid [OF assms(1) sz]
                  assms(2,3))
qed (simp_all add: make_gaussian_zero_extent make_gaussian_mass_zero_extent assms(1))

lemma upt_0_2: "[0..<2] = [0, Suc 0]"
  by (simp add: numeral_2_eq_2)

theorem grid_independent_of_parameters_witness:
  "(0::nat) < 2 \<and> Some (4::real) \<noteq> Some 0 \<and> (1::real) \<noteq> 0 \<and> (3::real) \<noteq> 0
   \<and> make_gaussian 0 0 1 2 (Some 0) = Inl ValueError
   \<and> make_gaussian_mass tanh 1 (- 1) 3 2 (Some 0) = Inl ValueError
   \<and> (\<exists>Z Z' M M'.
           make_gaussian 0 0 1 2 (Some 4) = Inr (grid_X 2 (Some 4), grid_Y 2 (Some 4), Z)
         \<and> make_gaussian 1 (- 1) 3 2 (Some 4) = Inr (grid_X 2 (Some 4), grid_Y 2 (Some 4), Z')
         \<and> make_gaussian_mass tanh 0 0 1 2 (Some 4)
             = Inr (grid_X 2 (Some 4), grid_Y 2 (Some 4), M)
         \<and> make_gaussian_mass tanh 1 (- 1) 3 2 (Some 4)
             = Inr (grid_X 2 (Some 4), grid_Y 2 (Some 4), M'))
   \<and> grid_X 2 (Some 4) = [[- 1, 1], [- 1, 1]] \<and> grid_Y 2 (Some 4) = [[1, 1], [- 1, - 1]]"
proof -
  have g: "grid_X 2 (Some 4) = [[- 1, 1], [- 1, 1]]" "grid_Y 2 (Some 4) = [[1, 1], [- 1, - 1]]"
    by (simp_all add: grid_X_def grid_Y_def axis_sample_def pixel_pitch_def deg_def dtype_def
                      upt_0_2)
  show ?thesis
    using grid_independent_of_parameters [of 2 1 3 "Some 4" 0 0 1 "- 1" tanh]
          grid_independent_of_parameters [of 2 1 3 "Some 0" 0 0 1 "- 1" tanh] g
    by simp
qed

section \<open>Branch selection and formulas of the mass generator\<close>

text \<open>
  Claim C1. For \<open>n_pix > 0\<close> and \<open>sigma > 0\<close>, \<^verbatim>\<open>make_gaussian_mass\<close> fails on the
  extent zero (the zero step of \<^verbatim>\<open>np.arange\<close>) and on every other extent returns an
  \<open>n_pix\<close> by \<open>n_pix\<close> field over its grid. With
  \<open>dpix = size / n_pix\<close> and \<open>(xi, yi)\<close> the grid point of a cell: when \<open>sigma < dpix\<close>
  the cell holds the closed-form mass, a quarter of the product of the two differences of
  the error function; otherwise it holds the point sample
  \<open>dpix\<^sup>2 * (1 / (2 * pi * sigma\<^sup>2)) * exp (- ((xi - x)\<^sup>2 + (yi - y)\<^sup>2) / (2 * sigma\<^sup>2))\<close>.
\<close>

theorem make_gaussian_mass_cells:
  assumes "0 < n_pix" and "0 < sigma"
  shows "(sz = Some 0 \<longrightarrow> make_gaussian_mass erf x y sigma n_pix sz = Inl ValueError)
       \<and> (sz \<noteq> Some 0 \<longrightarrow>
            (\<exists>X Y Z.
           make_gaussian_mass erf x y sigma n_pix sz = Inr (X, Y, Z)
         \<and> length Z = n_pix
         \<and> (\<forall>r<n_pix. length (Z ! r) = n_pix)
         \<and> (\<forall>r<n_pix. \<forall>c<n_pix.
               Z ! r ! c =
                 (let dpix = pixel_pitch n_pix sz; xi = X ! r ! c; yi = Y ! r ! c
                  in if sigma < dpix
                     then 0.25 * (erf ((xi - x + dpix / 2) / (sqrt 2 * sigma))
                                   - erf ((xi - x - dpix / 2) / (sqrt 2 * sigma)))
                               * (erf ((yi - y + dpix / 2) / (sqrt 2 * sigma))
                                   - erf ((yi - y - dpix / 2) / (sqrt 2 * sigma)))
                     else dpix\<^sup>2 * (1 / (2 * pi * sigma\<^sup>2))
                            * exp (- ((xi - x)\<^sup>2 + (yi - y)\<^sup>2) / (2 * sigma\<^sup>2))))))"
proof (intro conjI impI)
  assume "sz = Some 0"
  with assms(1) show "make_gaussian_mass erf x y sigma n_pix sz = Inl ValueError"
    by (simp add: make_gaussian_mass_zero_extent)
next
  assume sz: "sz \<noteq> Some 0"
  show "\<exists>X Y Z.
           make_gaussian_mass erf x y sigma n_pix sz = Inr (X, Y, Z)
         \<and> length Z = n_pix
         \<and> (\<forall>r<n_pix. length (Z ! r) = n_pix)
         \<and> (\<forall>r<n_pix. \<forall>c<n_pix.
               Z ! r ! c =
                 (let dpix = pixel_pitch n_pix sz; xi = X ! r ! c; yi = Y ! r ! c
                  in if sigma < dpix
                     then 0.25 * (erf ((xi - x + dpix / 2) / (sqrt 2 * sigma))
                                   - erf ((xi - x - dpix / 2) / (sqrt 2 * sigma)))
                               * (erf ((yi - y + dpix / 2) / (sqrt 2 * sigma))
                                   - erf ((yi - y - dpix / 2) / (sqrt 2 * sigma)))
                     else dpix\<^sup>2 * (1 / (2 * pi * sigma\<^sup>2))
                            * exp (- ((xi - x)\<^sup>2 + (yi - y)\<^sup>2) / (2 * sigma\<^sup>2))))"
  proof -
    have s0: "sigma \<noteq> 0" using assms(2) by simp
    note mm = make_gaussian_mass_valid [OF assms(1) sz s0, of erf x y]
    show ?thesis
    proof (cases "sigma < pixel_pitch n_pix sz")
      case True
      then show ?thesis
        by (simp add: mm field_lengths mass_field_nth grid_X_nth grid_Y_nth gaussian_mass_def Let_def)
    next
      case False
      then show ?thesis
        by (simp add: mm field_lengths point_field_nth grid_X_nth grid_Y_nth mult.commute Let_def)
    qed
  qed
qed


theorem make_gaussian_mass_cells_witness:
  "(0::nat) < 2 \<and> (0::real) < 1 / 2 \<and> (0::real) < 1 \<and> (None::real option) \<noteq> Some 0
   \<and> pixel_pitch 2 None = 1
   \<and> (\<exists>X Y Z. make_gaussian_mass tanh 0 0 (1 / 2) 2 None = Inr (X, Y, Z)
         \<and> X ! 0 ! 0 = - 1 / 2 \<and> Y ! 0 ! 0 = 1 / 2
         \<and> Z ! 0 ! 0 = 0.25 * (tanh ((- 1 / 2 - 0 + 1 / 2) / (sqrt 2 * (1 / 2)))
                                 - tanh ((- 1 / 2 - 0 - 1 / 2) / (sqrt 2 * (1 / 2))))
                             * (tanh ((1 / 2 - 0 + 1 / 2) / (sqrt 2 * (1 / 2)))
                                 - tanh ((1 / 2 - 0 - 1 / 2) / (sqrt 2 * (1 / 2)))))
   \<and> (\<exists>X Y Z. make_gaussian_mass tanh 0 0 1 2 None = Inr (X, Y, Z)
         \<and> X ! 0 ! 0 = - 1 / 2 \<and> Y ! 0 ! 0 = 1 / 2
         \<and> Z ! 0 ! 0 = 1\<^sup>2 * (1 / (2 * pi * 1\<^sup>2))
                          * exp (- ((- 1 / 2 - 0)\<^sup>2 + (1 / 2 - 0)\<^sup>2) / (2 * 1\<^sup>2)))"
proof -
  have d: "deg 2 None = 2" by (simp add: deg_def dtype_def)
  have p: "pixel_pitch 2 None = 1" by (simp add: pixel_pitch_def d dtype_def)
  have gx: "grid_X 2 None ! 0 ! 0 = - 1 / 2" and gy: "grid_Y 2 None ! 0 ! 0 = 1 / 2"
    by (simp_all add: grid_X_nth grid_Y_nth axis_sample_def p d)
  have pre: "(0::nat) < 2" "(0::real) < 1 / 2" "(0::real) < 1" "(None::real option) \<noteq> Some 0"
    by simp_all
  from make_gaussian_mass_cells [OF pre(1,2), THEN conjunct2, THEN mp, OF pre(4), of tanh 0 0] obtain X Y Z where
    a: "make_gaussian_mass tanh 0 0 (1 / 2) 2 None = Inr (X, Y, Z)" and
    z: "\<forall>r<2. \<forall>c<2. Z ! r ! c =
                 (let dpix = pixel_pitch 2 None; xi = X ! r ! c; yi = Y ! r ! c
                  in if 1 / 2 < dpix
                     then 0.25 * (tanh ((xi - 0 + dpix / 2) / (sqrt 2 * (1 / 2)))
                                   - tanh ((xi - 0 - dpix / 2) / (sqrt 2 * (1 / 2))))
                               * (tanh ((yi - 0 + dpix / 2) / (sqrt 2 * (1 / 2)))
                                   - tanh ((yi - 0 - dpix / 2) / (sqrt 2 * (1 / 2))))
                     else dpix\<^sup>2 * (1 / (2 * pi * (1 / 2)\<^sup>2))
                            * exp (- ((xi - 0)\<^sup>2 + (yi - 0)\<^sup>2) / (2 * (1 / 2)\<^sup>2)))"
    by (elim exE conjE) (rule that, assumption+)
  have xy: "X ! 0 ! 0 = - 1 / 2" "Y ! 0 ! 0 = 1 / 2"
    using a make_gaussian_mass_valid [OF pre(1,4), of "1 / 2" tanh 0 0] gx gy by simp_all
  have z00: "Z ! 0 ! 0 = 0.25 * (tanh ((- 1 / 2 - 0 + 1 / 2) / (sqrt 2 * (1 / 2)))
                                 - tanh ((- 1 / 2 - 0 - 1 / 2) / (sqrt 2 * (1 / 2))))
                             * (tanh ((1 / 2 - 0 + 1 / 2) / (sqrt 2 * (1 / 2)))
                                 - tanh ((1 / 2 - 0 - 1 / 2) / (sqrt 2 * (1 / 2))))"
    using z xy by (simp add: p Let_def)
  from make_gaussian_mass_cells [OF pre(1,3), THEN conjunct2, THEN mp, OF pre(4), of tanh 0 0] obtain X' Y' Z' where
    a': "make_gaussian_mass tanh 0 0 1 2 None = Inr (X', Y', Z')" and
    z': "\<forall>r<2. \<forall>c<2. Z' ! r ! c =
                 (let dpix = pixel_pitch 2 None; xi = X' ! r ! c; yi = Y' ! r ! c
                  in if 1 < dpix
                     then 0.25 * (tanh ((xi - 0 + dpix / 2) / (sqrt 2 * 1))
                                   - tanh ((xi - 0 - dpix / 2) / (sqrt 2 * 1)))
                               * (tanh ((yi - 0 + dpix / 2) / (sqrt 2 * 1))
                                   - tanh ((yi - 0 - dpix / 2) / (sqrt 2 * 1)))
                     else dpix\<^sup>2 * (1 / (2 * pi * 1\<^sup>2))
                            * exp (- ((xi - 0)\<^sup>2 + (yi - 0)\<^sup>2) / (2 * 1\<^sup>2)))"
    by (elim exE conjE) (rule that, assumption+)
  have xy': "X' ! 0 ! 0 = - 1 / 2" "Y' ! 0 ! 0 = 1 / 2"
    using a' make_gaussian_mass_valid [OF pre(1,4), of 1 tanh 0 0] gx gy by simp_all
  have z00': "Z' ! 0 ! 0 = 1\<^sup>2 * (1 / (2 * pi * 1\<^sup>2))
                          * exp (- ((- 1 / 2 - 0)\<^sup>2 + (1 / 2 - 0)\<^sup>2) / (2 * 1\<^sup>2))"
    using z' xy' by (simp add: p Let_def)
  from a xy z00 a' xy' z00' pre p show ?thesis by blast
qed

section \<open>Renormalisation of the point-sampled generator\<close>

lemma upt_0_4: "[0..<4] = [0, 1, 2, 3]"
  by (simp add: eval_nat_numeral upt_rec)

lemma failing_axis:
  "arange (- dtype (real 4) / 2 + 0.5 * (dtype (dtype (real 4)) / real 4)) (dtype (real 4) / 2)
     (dtype (dtype (real 4)) / real 4) = Inr [- 3 / 2, - 1 / 2, 1 / 2, 3 / 2]"
proof -
  have c: "\<lceil>7 / 2 :: real\<rceil> = 4" by (rule ceiling_unique) simp_all
  show ?thesis by (simp add: arange_def dtype_def c upt_0_4)
qed

text \<open>
  Claim C2. For \<open>sigma < dpix / 2\<close> the code divides the point-sampled field by its total
  so that the field sums to 1, but it does not guard the division. On
  \<^verbatim>\<open>make_gaussian(0, 0, 0.01, 4)\<close> the pitch is 1, so \<open>0 < sigma < dpix / 2\<close>; the grid
  points are \<open>\<plusminus>0.5\<close> and \<open>\<plusminus>1.5\<close>, every exponent is at most \<open>-2500\<close>, the exponential
  underflows to zero in every cell, the total is zero and the renormalisation is the
  division of zero by zero: the code returns a field of \<^verbatim>\<open>nan\<close>, which does not sum to 1.
\<close>

theorem make_gaussian_zero_total:
  "(0::real) < 1 / 100 \<and> 1 / 100 < pixel_pitch 4 None / 2
   \<and> make_gaussian_with exp_underflow 0 0 (1 / 100) 4 None = Inl NonFinite"
proof -
  have p: "pixel_pitch 4 None = 1" by (simp add: pixel_pitch_def deg_def dtype_def)
  have run: "make_gaussian_with exp_underflow 0 0 (1 / 100) 4 None = Inl NonFinite"
    unfolding make_gaussian_with_def Let_def
    apply (simp only: option.case failing_axis sum.case)
    apply (simp add: meshgrid_def dtype_def np_sum_def exp_underflow_def power2_eq_square)
    done
  from p run show ?thesis by simp
qed

section \<open>Properties of the stacking wrappers\<close>

lemma set_layer_square:
  "length F = n_pix \<Longrightarrow> list_all (\<lambda>row. length row = n_pix) F
   \<Longrightarrow> set_layer Z n_pix i F = Inr (Z[i := F])"
  by (simp add: set_layer_def)

lemma set_layer_error: "set_layer Z n_pix i F = Inl e \<Longrightarrow> e = ValueError"
  by (auto simp: set_layer_def split: if_splits)

lemma set_layer_length: "set_layer Z n_pix i F = Inr Z' \<Longrightarrow> length Z' = length Z"
  by (auto simp: set_layer_def split: if_splits)

lemma field_square:
  "length (point_field x y sigma n_pix sz) = n_pix
   \<and> list_all (\<lambda>row. length row = n_pix) (point_field x y sigma n_pix sz)"
  "length (mass_field erf x y sigma n_pix sz) = n_pix
   \<and> list_all (\<lambda>row. length row = n_pix) (mass_field erf x y sigma n_pix sz)"
  "length (map (map f) (point_field x y sigma n_pix sz)) = n_pix
   \<and> list_all (\<lambda>row. length row = n_pix) (map (map f) (point_field x y sigma n_pix sz))"
  by (simp_all add: point_field_def mass_field_def list_all_iff)

lemma make_gaussian_Inr_shape:
  assumes "make_gaussian x y sigma n_pix sz = Inr (X, Y, F)"
  shows "X = grid_X n_pix sz \<and> Y = grid_Y n_pix sz
         \<and> length F = n_pix \<and> list_all (\<lambda>row. length row = n_pix) F"
proof -
  from make_gaussian_Inr_valid [OF assms]
  have v: "0 < n_pix" "sz \<noteq> Some 0" "sigma \<noteq> 0" by simp_all
  from assms make_gaussian_valid [OF v, of x y] show ?thesis
    by (auto simp: field_square split: if_splits)
qed

lemma make_gaussian_mass_Inr_shape:
  assumes "make_gaussian_mass erf x y sigma n_pix sz = Inr (X, Y, F)"
  shows "X = grid_X n_pix sz \<and> Y = grid_Y n_pix sz
         \<and> length F = n_pix \<and> list_all (\<lambda>row. length row = n_pix) F"
proof -
  from make_gaussian_mass_Inr_valid [OF assms]
  have v: "0 < n_pix" "sz \<noteq> Some 0" "sigma \<noteq> 0" by simp_all
  from assms make_gaussian_mass_valid [OF v, of erf x y] show ?thesis
    by (auto simp: field_square split: if_splits)
qed

text \<open>A generator is \<open>well-shaped\<close> on an index when the layer it returns there, if any, is
  \<open>n_pix\<close> by \<open>n_pix\<close>.\<close>

lemma stack_loop_Inr:
  assumes "\<And>i. i \<in> set js \<Longrightarrow>
             \<exists>X Y F. gen i = Inr (X, Y, F) \<and> length F = n_pix
                      \<and> list_all (\<lambda>row. length row = n_pix) F"
  shows "\<exists>Z'. stack_loop gen n_pix js Z = Inr Z' \<and> length Z' = length Z
              \<and> (\<forall>j<length Z. j \<notin> set js \<longrightarrow> Z' ! j = Z ! j)
              \<and> (\<forall>j<length Z. j \<in> set js \<longrightarrow> (\<exists>X Y. gen j = Inr (X, Y, Z' ! j)))"
  using assms
proof (induction js arbitrary: Z)
  case Nil
  then show ?case by simp
next
  case (Cons i js)
  from Cons.prems [of i] obtain X Y F where
    g: "gen i = Inr (X, Y, F)" and sq: "length F = n_pix" "list_all (\<lambda>row. length row = n_pix) F"
    by auto
  from Cons.IH [of "Z[i := F]"] Cons.prems obtain Z' where
    r: "stack_loop gen n_pix js (Z[i := F]) = Inr Z'" and l: "length Z' = length Z" and
    keep: "\<forall>j<length Z. j \<notin> set js \<longrightarrow> Z' ! j = Z[i := F] ! j" and
    new: "\<forall>j<length Z. j \<in> set js \<longrightarrow> (\<exists>X Y. gen j = Inr (X, Y, Z' ! j))"
    by auto
  have run: "stack_loop gen n_pix (i # js) Z = Inr Z'"
    using g sq r by (simp add: set_layer_square)
  have k: "\<forall>j<length Z. j \<notin> set (i # js) \<longrightarrow> Z' ! j = Z ! j"
    using keep by auto
  have n: "\<forall>j<length Z. j \<in> set (i # js) \<longrightarrow> (\<exists>X Y. gen j = Inr (X, Y, Z' ! j))"
  proof (intro allI impI)
    fix j assume j: "j < length Z" "j \<in> set (i # js)"
    show "\<exists>X Y. gen j = Inr (X, Y, Z' ! j)"
    proof (cases "j \<in> set js")
      case True
      with new j show ?thesis by simp
    next
      case False
      with j have "j = i" by simp
      with keep j False have "Z' ! j = F" by simp
      with g \<open>j = i\<close> show ?thesis by simp
    qed
  qed
  from run l k n show ?case by blast
qed

lemma stack_loop_Inl:
  "stack_loop gen n_pix js Z = Inl e \<Longrightarrow> (\<exists>i\<in>set js. gen i = Inl e) \<or> e = ValueError"
proof (induction js arbitrary: Z)
  case Nil
  then show ?case by simp
next
  case (Cons i js)
  then show ?case
    by (auto split: sum.splits prod.splits dest: set_layer_error)
qed

lemma stack_loop_length:
  "stack_loop gen n_pix js Z = Inr Z' \<Longrightarrow> length Z' = length Z"
proof (induction js arbitrary: Z)
  case Nil
  then show ?case by simp
next
  case (Cons i js)
  then show ?case
    by (auto split: sum.splits prod.splits dest: set_layer_length)
qed


text \<open>The body shared by the two wrappers, after the assertion, for any generator.\<close>

lemma stack_body_Inr:
  assumes "0 < k"
    and "\<And>i. i < k \<Longrightarrow>
           \<exists>F. gen i = Inr (X0, Y0, F) \<and> length F = n_pix
                \<and> list_all (\<lambda>row. length row = n_pix) F"
  shows "\<exists>Z. (case gen 0 of
              Inl e \<Rightarrow> Inl e
            | Inr (X, Y, F) \<Rightarrow>
                (case set_layer (replicate k (replicate n_pix (replicate n_pix 0))) n_pix 0 F of
                   Inl e \<Rightarrow> Inl e
                 | Inr Z0 \<Rightarrow>
                     (case stack_loop gen n_pix [1..<k] Z0 of
                        Inl e \<Rightarrow> Inl e
                      | Inr Z' \<Rightarrow> Inr (X, Y, Z')))) = Inr (X0, Y0, Z) \<and> length Z = k \<and> (\<forall>i<k. gen i = Inr (X0, Y0, Z ! i))"
proof -
  let ?Z = "replicate k (replicate n_pix (replicate n_pix (0::real)))"
  from assms(2) [OF assms(1)] obtain F0 where
    g0: "gen 0 = Inr (X0, Y0, F0)" and sq: "length F0 = n_pix"
      "list_all (\<lambda>row. length row = n_pix) F0"
    by auto
  have tl: "\<exists>X Y F. gen i = Inr (X, Y, F) \<and> length F = n_pix
                  \<and> list_all (\<lambda>row. length row = n_pix) F" if "i \<in> set [1..<k]" for i
    using assms(2) [of i] that by auto
  from stack_loop_Inr [of "[1..<k]" gen n_pix "?Z[0 := F0]", OF tl] obtain Z' where
    r: "stack_loop gen n_pix [1..<k] (?Z[0 := F0]) = Inr Z'" and l: "length Z' = k" and
    keep: "\<forall>j<k. j \<notin> set [1..<k] \<longrightarrow> Z' ! j = ?Z[0 := F0] ! j" and
    new: "\<forall>j<k. j \<in> set [1..<k] \<longrightarrow> (\<exists>X Y. gen j = Inr (X, Y, Z' ! j))"
    by auto
  have run: "(case gen 0 of
              Inl e \<Rightarrow> Inl e
            | Inr (X, Y, F) \<Rightarrow>
                (case set_layer (replicate k (replicate n_pix (replicate n_pix 0))) n_pix 0 F of
                   Inl e \<Rightarrow> Inl e
                 | Inr Z0 \<Rightarrow>
                     (case stack_loop gen n_pix [1..<k] Z0 of
                        Inl e \<Rightarrow> Inl e
                      | Inr Z' \<Rightarrow> Inr (X, Y, Z')))) = Inr (X0, Y0, Z')"
    using g0 sq r by (simp add: set_layer_square)
  have layers: "\<forall>i<k. gen i = Inr (X0, Y0, Z' ! i)"
  proof (intro allI impI)
    fix i assume i: "i < k"
    show "gen i = Inr (X0, Y0, Z' ! i)"
    proof (cases "i = 0")
      case True
      with keep i assms(1) have "Z' ! i = F0" by simp
      with g0 True show ?thesis by simp
    next
      case False
      with new i obtain X Y where "gen i = Inr (X, Y, Z' ! i)" by auto
      with assms(2) [OF i] show ?thesis by auto
    qed
  qed
  from run l layers show ?thesis by blast
qed

lemma stack_body_no_assert:
  assumes "\<And>i. gen i \<noteq> Inl AssertionError"
  shows "(case gen 0 of
              Inl e \<Rightarrow> Inl e
            | Inr (X, Y, F) \<Rightarrow>
                (case set_layer (replicate k (replicate n_pix (replicate n_pix 0))) n_pix 0 F of
                   Inl e \<Rightarrow> Inl e
                 | Inr Z0 \<Rightarrow>
                     (case stack_loop gen n_pix [1..<k] Z0 of
                        Inl e \<Rightarrow> Inl e
                      | Inr Z' \<Rightarrow> Inr (X, Y, Z')))) \<noteq> Inl AssertionError"
  using assms
  by (auto split: sum.splits prod.splits dest!: set_layer_error stack_loop_Inl)

lemma stack_body_length:
  assumes "(case gen 0 of
              Inl e \<Rightarrow> Inl e
            | Inr (X, Y, F) \<Rightarrow>
                (case set_layer (replicate k (replicate n_pix (replicate n_pix 0))) n_pix 0 F of
                   Inl e \<Rightarrow> Inl e
                 | Inr Z0 \<Rightarrow>
                     (case stack_loop gen n_pix [1..<k] Z0 of
                        Inl e \<Rightarrow> Inl e
                      | Inr Z' \<Rightarrow> Inr (X, Y, Z')))) = Inr (X, Y, Z)"
  shows "length Z = k"
  using assms
  by (auto split: sum.splits prod.splits dest!: set_layer_length stack_loop_length)

lemma make_gaussian_layer:
  assumes "0 < n_pix" "sz \<noteq> Some 0" "sigma \<noteq> 0"
  shows "\<exists>F. make_gaussian x y sigma n_pix sz = Inr (grid_X n_pix sz, grid_Y n_pix sz, F)
             \<and> length F = n_pix \<and> list_all (\<lambda>row. length row = n_pix) F"
  using make_gaussian_valid [OF assms, of x y] by (simp add: field_square)

lemma make_gaussian_mass_layer:
  assumes "0 < n_pix" "sz \<noteq> Some 0" "sigma \<noteq> 0"
  shows "\<exists>F. make_gaussian_mass erf x y sigma n_pix sz
               = Inr (grid_X n_pix sz, grid_Y n_pix sz, F)
             \<and> length F = n_pix \<and> list_all (\<lambda>row. length row = n_pix) F"
  using make_gaussian_mass_valid [OF assms, of erf x y] by (simp add: field_square)

lemma make_gaussian_stack_valid:
  assumes "0 < min (length xs) (min (length ys) (length sigmas))" and "0 < n_pix"
    and "sz \<noteq> Some 0" and "\<forall>i<min (length xs) (min (length ys) (length sigmas)). sigmas ! i \<noteq> 0"
  shows "\<exists>Z. make_gaussian_stack xs ys sigmas n_pix sz
               = Inr (grid_X n_pix sz, grid_Y n_pix sz, Z)
           \<and> length Z = min (length xs) (min (length ys) (length sigmas))
           \<and> (\<forall>i<min (length xs) (min (length ys) (length sigmas)).
                 make_gaussian (xs ! i) (ys ! i) (sigmas ! i) n_pix sz
                   = Inr (grid_X n_pix sz, grid_Y n_pix sz, Z ! i))"
proof -
  let ?k = "min (length xs) (min (length ys) (length sigmas))"
  let ?gen = "\<lambda>i. make_gaussian (xs ! i) (ys ! i) (sigmas ! i) n_pix sz"
  have g: "\<exists>F. ?gen i = Inr (grid_X n_pix sz, grid_Y n_pix sz, F) \<and> length F = n_pix
              \<and> list_all (\<lambda>row. length row = n_pix) F" if "i < ?k" for i
    using make_gaussian_layer [OF assms(2,3)] assms(4) that by blast
  from stack_body_Inr [of ?k ?gen, OF assms(1) g] assms(1) show ?thesis
    unfolding make_gaussian_stack_def Let_def by simp
qed

lemma make_gaussian_mass_stack_valid:
  assumes "0 < min (length xs) (min (length ys) (length sigmas))" and "0 < n_pix"
    and "sz \<noteq> Some 0" and "\<forall>i<min (length xs) (min (length ys) (length sigmas)). sigmas ! i \<noteq> 0"
  shows "\<exists>Z. make_gaussian_mass_stack erf xs ys sigmas n_pix sz
               = Inr (grid_X n_pix sz, grid_Y n_pix sz, Z)
           \<and> length Z = min (length xs) (min (length ys) (length sigmas))
           \<and> (\<forall>i<min (length xs) (min (length ys) (length sigmas)).
                 make_gaussian_mass erf (xs ! i) (ys ! i) (sigmas ! i) n_pix sz
                   = Inr (grid_X n_pix sz, grid_Y n_pix sz, Z ! i))"
proof -
  let ?k = "min (length xs) (min (length ys) (length sigmas))"
  let ?gen = "\<lambda>i. make_gaussian_mass erf (xs ! i) (ys ! i) (sigmas ! i) n_pix sz"
  have g: "\<exists>F. ?gen i = Inr (grid_X n_pix sz, grid_Y n_pix sz, F) \<and> length F = n_pix
              \<and> list_all (\<lambda>row. length row = n_pix) F" if "i < ?k" for i
    using make_gaussian_mass_layer [OF assms(2,3)] assms(4) that by blast
  from stack_body_Inr [of ?k ?gen, OF assms(1) g] assms(1) show ?thesis
    unfolding make_gaussian_mass_stack_def Let_def by simp
qed

lemma make_gaussian_stack_assert:
  "make_gaussian_stack xs ys sigmas n_pix sz = Inl AssertionError
   \<longleftrightarrow> min (length xs) (min (length ys) (length sigmas)) = 0"
  unfolding make_gaussian_stack_def Let_def
  using stack_body_no_assert
          [of "\<lambda>i. make_gaussian (xs ! i) (ys ! i) (sigmas ! i) n_pix sz", OF make_gaussian_no_assert]
  by (simp del: min_less_iff_conj min.bounded_iff)

lemma make_gaussian_mass_stack_assert:
  "make_gaussian_mass_stack erf xs ys sigmas n_pix sz = Inl AssertionError
   \<longleftrightarrow> min (length xs) (min (length ys) (length sigmas)) = 0"
  unfolding make_gaussian_mass_stack_def Let_def
  using stack_body_no_assert
          [of "\<lambda>i. make_gaussian_mass erf (xs ! i) (ys ! i) (sigmas ! i) n_pix sz",
           OF make_gaussian_mass_no_assert]
  by (simp del: min_less_iff_conj min.bounded_iff)

lemma make_gaussian_stack_length:
  "make_gaussian_stack xs ys sigmas n_pix sz = Inr (X, Y, Z)
   \<Longrightarrow> length Z = min (length xs) (min (length ys) (length sigmas))"
  unfolding make_gaussian_stack_def Let_def
  by (auto split: if_splits dest: stack_body_length simp del: min_less_iff_conj)

lemma make_gaussian_mass_stack_length:
  "make_gaussian_mass_stack erf xs ys sigmas n_pix sz = Inr (X, Y, Z)
   \<Longrightarrow> length Z = min (length xs) (min (length ys) (length sigmas))"
  unfolding make_gaussian_mass_stack_def Let_def
  by (auto split: if_splits dest: stack_body_length simp del: min_less_iff_conj)

lemma make_gaussian_stack_single:
  "make_gaussian_stack [x0] [y0] [s0] n_pix sz =
     (case make_gaussian x0 y0 s0 n_pix sz of
        Inl e \<Rightarrow> Inl e
      | Inr (X, Y, F) \<Rightarrow> Inr (X, Y, [F]))"
  unfolding make_gaussian_stack_def Let_def
  by (auto split: sum.splits dest!: make_gaussian_Inr_shape simp: set_layer_square)

lemma make_gaussian_mass_stack_single:
  "make_gaussian_mass_stack erf [x0] [y0] [s0] n_pix sz =
     (case make_gaussian_mass erf x0 y0 s0 n_pix sz of
        Inl e \<Rightarrow> Inl e
      | Inr (X, Y, F) \<Rightarrow> Inr (X, Y, [F]))"
  unfolding make_gaussian_mass_stack_def Let_def
  by (auto split: sum.splits dest!: make_gaussian_mass_Inr_shape simp: set_layer_square)

text \<open>
  Claim C4. Let \<open>k\<close> be the minimum of the three input lengths. For \<open>k > 0\<close>,
  \<open>n_pix > 0\<close>, an extent other than zero and non-zero \<open>sigmas\<close>, each wrapper returns
  \<open>(X, Y, Z)\<close> with \<open>k\<close> layers such that for every \<open>i < k\<close> the single-instance generator
  on \<open>(xs[i], ys[i], sigmas[i])\<close> returns exactly \<open>(X, Y, Z[i])\<close>: every layer is that
  call's field, in input order, and the grid is that of every single call. On one-element
  inputs a wrapper returns what its generator returns, the field wrapped into a stack of
  length one, and fails with the generator's error when the generator fails.
\<close>

theorem stack_layers_are_single_calls:
  "(0 < min (length xs) (min (length ys) (length sigmas)) \<and> 0 < n_pix \<and> sz \<noteq> Some 0
      \<and> (\<forall>i<min (length xs) (min (length ys) (length sigmas)). sigmas ! i \<noteq> 0)
    \<longrightarrow> (\<exists>X Y Z. make_gaussian_stack xs ys sigmas n_pix sz = Inr (X, Y, Z)
            \<and> length Z = min (length xs) (min (length ys) (length sigmas))
            \<and> (\<forall>i<min (length xs) (min (length ys) (length sigmas)).
                 make_gaussian (xs ! i) (ys ! i) (sigmas ! i) n_pix sz = Inr (X, Y, Z ! i)))
        \<and> (\<exists>X Y Z. make_gaussian_mass_stack erf xs ys sigmas n_pix sz = Inr (X, Y, Z)
            \<and> length Z = min (length xs) (min (length ys) (length sigmas))
            \<and> (\<forall>i<min (length xs) (min (length ys) (length sigmas)).
                 make_gaussian_mass erf (xs ! i) (ys ! i) (sigmas ! i) n_pix sz
                   = Inr (X, Y, Z ! i))))
   \<and> make_gaussian_stack [x0] [y0] [s0] n_pix sz =
       (case make_gaussian x0 y0 s0 n_pix sz of
          Inl e \<Rightarrow> Inl e
        | Inr (X, Y, F) \<Rightarrow> Inr (X, Y, [F]))
   \<and> make_gaussian_mass_stack erf [x0] [y0] [s0] n_pix sz =
       (case make_gaussian_mass erf x0 y0 s0 n_pix sz of
          Inl e \<Rightarrow> Inl e
        | Inr (X, Y, F) \<Rightarrow> Inr (X, Y, [F]))"
proof (intro conjI impI)
  assume a: "0 < min (length xs) (min (length ys) (length sigmas)) \<and> 0 < n_pix \<and> sz \<noteq> Some 0
      \<and> (\<forall>i<min (length xs) (min (length ys) (length sigmas)). sigmas ! i \<noteq> 0)"
  then have h: "0 < min (length xs) (min (length ys) (length sigmas))" "0 < n_pix" "sz \<noteq> Some 0"
    "\<forall>i<min (length xs) (min (length ys) (length sigmas)). sigmas ! i \<noteq> 0"
    by blast+
  from make_gaussian_stack_valid [OF h]
  show "\<exists>X Y Z. make_gaussian_stack xs ys sigmas n_pix sz = Inr (X, Y, Z)
            \<and> length Z = min (length xs) (min (length ys) (length sigmas))
            \<and> (\<forall>i<min (length xs) (min (length ys) (length sigmas)).
                 make_gaussian (xs ! i) (ys ! i) (sigmas ! i) n_pix sz = Inr (X, Y, Z ! i))"
    by blast
  from make_gaussian_mass_stack_valid [OF h, of erf]
  show "\<exists>X Y Z. make_gaussian_mass_stack erf xs ys sigmas n_pix sz = Inr (X, Y, Z)
            \<and> length Z = min (length xs) (min (length ys) (length sigmas))
            \<and> (\<forall>i<min (length xs) (min (length ys) (length sigmas)).
                 make_gaussian_mass erf (xs ! i) (ys ! i) (sigmas ! i) n_pix sz
                   = Inr (X, Y, Z ! i))"
    by blast
next
  show "make_gaussian_stack [x0] [y0] [s0] n_pix sz =
       (case make_gaussian x0 y0 s0 n_pix sz of
          Inl e \<Rightarrow> Inl e
        | Inr (X, Y, F) \<Rightarrow> Inr (X, Y, [F]))"
    by (rule make_gaussian_stack_single)
next
  show "make_gaussian_mass_stack erf [x0] [y0] [s0] n_pix sz =
       (case make_gaussian_mass erf x0 y0 s0 n_pix sz of
          Inl e \<Rightarrow> Inl e
        | Inr (X, Y, F) \<Rightarrow> Inr (X, Y, [F]))"
    by (rule make_gaussian_mass_stack_single)
qed

text \<open>
  Claim C5. Let \<open>k\<close> be the minimum of the three input lengths. Each wrapper fails with
  the assertion exactly when \<open>k = 0\<close>, and then returns nothing; whenever it returns,
  the stack has exactly \<open>k\<close> layers, longer inputs being cut to the shortest; and for
  \<open>k > 0\<close>, \<open>n_pix > 0\<close>, an extent other than zero and non-zero \<open>sigmas\<close> it does return.
\<close>

theorem stack_length_and_assertion:
  "(make_gaussian_stack xs ys sigmas n_pix sz = Inl AssertionError
      \<longleftrightarrow> min (length xs) (min (length ys) (length sigmas)) = 0)
   \<and> (make_gaussian_mass_stack erf xs ys sigmas n_pix sz = Inl AssertionError
      \<longleftrightarrow> min (length xs) (min (length ys) (length sigmas)) = 0)
   \<and> (\<forall>X Y Z. make_gaussian_stack xs ys sigmas n_pix sz = Inr (X, Y, Z)
        \<longrightarrow> length Z = min (length xs) (min (length ys) (length sigmas)))
   \<and> (\<forall>X Y Z. make_gaussian_mass_stack erf xs ys sigmas n_pix sz = Inr (X, Y, Z)
        \<longrightarrow> length Z = min (length xs) (min (length ys) (length sigmas)))
   \<and> (0 < min (length xs) (min (length ys) (length sigmas)) \<and> 0 < n_pix \<and> sz \<noteq> Some 0
        \<and> (\<forall>i<min (length xs) (min (length ys) (length sigmas)). sigmas ! i \<noteq> 0)
      \<longrightarrow> (\<exists>X Y Z. make_gaussian_stack xs ys sigmas n_pix sz = Inr (X, Y, Z)
              \<and> length Z = min (length xs) (min (length ys) (length sigmas)))
          \<and> (\<exists>X Y Z. make_gaussian_mass_stack erf xs ys sigmas n_pix sz = Inr (X, Y, Z)
              \<and> length Z = min (length xs) (min (length ys) (length sigmas))))"
proof (intro conjI allI impI)
  show "make_gaussian_stack xs ys sigmas n_pix sz = Inl AssertionError
      \<longleftrightarrow> min (length xs) (min (length ys) (length sigmas)) = 0"
    by (rule make_gaussian_stack_assert)
  show "make_gaussian_mass_stack erf xs ys sigmas n_pix sz = Inl AssertionError
      \<longleftrightarrow> min (length xs) (min (length ys) (length sigmas)) = 0"
    by (rule make_gaussian_mass_stack_assert)
next
  fix X Y Z assume "make_gaussian_stack xs ys sigmas n_pix sz = Inr (X, Y, Z)"
  then show "length Z = min (length xs) (min (length ys) (length sigmas))"
    by (rule make_gaussian_stack_length)
next
  fix X Y Z assume "make_gaussian_mass_stack erf xs ys sigmas n_pix sz = Inr (X, Y, Z)"
  then show "length Z = min (length xs) (min (length ys) (length sigmas))"
    by (rule make_gaussian_mass_stack_length)
next
  assume a: "0 < min (length xs) (min (length ys) (length sigmas)) \<and> 0 < n_pix \<and> sz \<noteq> Some 0
        \<and> (\<forall>i<min (length xs) (min (length ys) (length sigmas)). sigmas ! i \<noteq> 0)"
  then have h: "0 < min (length xs) (min (length ys) (length sigmas))" "0 < n_pix" "sz \<noteq> Some 0"
    "\<forall>i<min (length xs) (min (length ys) (length sigmas)). sigmas ! i \<noteq> 0"
    by blast+
  from make_gaussian_stack_valid [OF h]
  show "\<exists>X Y Z. make_gaussian_stack xs ys sigmas n_pix sz = Inr (X, Y, Z)
              \<and> length Z = min (length xs) (min (length ys) (length sigmas))"
    by blast
  from make_gaussian_mass_stack_valid [OF h, of erf]
  show "\<exists>X Y Z. make_gaussian_mass_stack erf xs ys sigmas n_pix sz = Inr (X, Y, Z)
              \<and> length Z = min (length xs) (min (length ys) (length sigmas))"
    by blast
qed

theorem stack_layers_are_single_calls_witness:
  "0 < min (length [0, 1, 2::real]) (min (length [0, 1::real]) (length [1, 2, 3, 4::real]))
   \<and> (0::nat) < 2 \<and> (None::real option) \<noteq> Some 0
   \<and> [1, 2, 3, 4::real] ! 0 \<noteq> 0 \<and> [1, 2, 3, 4::real] ! 1 \<noteq> 0
   \<and> (\<exists>X Y Z. make_gaussian_stack [0, 1, 2] [0, 1] [1, 2, 3, 4] 2 None = Inr (X, Y, Z)
         \<and> length Z = 2
         \<and> make_gaussian 0 0 1 2 None = Inr (X, Y, Z ! 0)
         \<and> make_gaussian 1 1 2 2 None = Inr (X, Y, Z ! 1))
   \<and> (\<exists>X Y Z. make_gaussian_mass_stack tanh [0, 1, 2] [0, 1] [1, 2, 3, 4] 2 None = Inr (X, Y, Z)
         \<and> length Z = 2
         \<and> make_gaussian_mass tanh 0 0 1 2 None = Inr (X, Y, Z ! 0)
         \<and> make_gaussian_mass tanh 1 1 2 2 None = Inr (X, Y, Z ! 1))
   \<and> (\<exists>X Y F. make_gaussian 0 0 1 2 None = Inr (X, Y, F)
         \<and> make_gaussian_stack [0] [0] [1] 2 None = Inr (X, Y, [F]))"
proof -
  let ?xs = "[0, 1, 2::real]" and ?ys = "[0, 1::real]" and ?ss = "[1, 2, 3, 4::real]"
  have k: "min (length ?xs) (min (length ?ys) (length ?ss)) = 2" by simp
  have pre: "0 < min (length ?xs) (min (length ?ys) (length ?ss)) \<and> (0::nat) < 2
      \<and> (None::real option) \<noteq> Some 0
      \<and> (\<forall>i<min (length ?xs) (min (length ?ys) (length ?ss)). ?ss ! i \<noteq> 0)"
    unfolding k by (auto simp: less_Suc_eq numeral_2_eq_2)
  note t = stack_layers_are_single_calls [of ?xs ?ys ?ss 2 None tanh 0 0 1]
  from t pre have
    "\<exists>X Y Z. make_gaussian_stack ?xs ?ys ?ss 2 None = Inr (X, Y, Z)
            \<and> length Z = min (length ?xs) (min (length ?ys) (length ?ss))
            \<and> (\<forall>i<min (length ?xs) (min (length ?ys) (length ?ss)).
                 make_gaussian (?xs ! i) (?ys ! i) (?ss ! i) 2 None = Inr (X, Y, Z ! i))"
    by blast
  then obtain X Y Z where
    a: "make_gaussian_stack ?xs ?ys ?ss 2 None = Inr (X, Y, Z)" and l: "length Z = 2" and
    la: "\<forall>i<2. make_gaussian (?xs ! i) (?ys ! i) (?ss ! i) 2 None = Inr (X, Y, Z ! i)"
    unfolding k by blast
  from la have l0: "make_gaussian 0 0 1 2 None = Inr (X, Y, Z ! 0)"
    and l1: "make_gaussian 1 1 2 2 None = Inr (X, Y, Z ! 1)"
    by (auto dest: spec [of _ 0] spec [of _ 1])
  from t pre have
    "\<exists>X Y Z. make_gaussian_mass_stack tanh ?xs ?ys ?ss 2 None = Inr (X, Y, Z)
            \<and> length Z = min (length ?xs) (min (length ?ys) (length ?ss))
            \<and> (\<forall>i<min (length ?xs) (min (length ?ys) (length ?ss)).
                 make_gaussian_mass tanh (?xs ! i) (?ys ! i) (?ss ! i) 2 None
                   = Inr (X, Y, Z ! i))"
    by blast
  then obtain X' Y' Z' where
    a': "make_gaussian_mass_stack tanh ?xs ?ys ?ss 2 None = Inr (X', Y', Z')" and
    l': "length Z' = 2" and
    la': "\<forall>i<2. make_gaussian_mass tanh (?xs ! i) (?ys ! i) (?ss ! i) 2 None
                   = Inr (X', Y', Z' ! i)"
    unfolding k by blast
  from la' have l0': "make_gaussian_mass tanh 0 0 1 2 None = Inr (X', Y', Z' ! 0)"
    and l1': "make_gaussian_mass tanh 1 1 2 2 None = Inr (X', Y', Z' ! 1)"
    by (auto dest: spec [of _ 0] spec [of _ 1])
  from t have s: "make_gaussian_stack [0] [0] [1] 2 None =
       (case make_gaussian 0 0 1 2 None of
          Inl e \<Rightarrow> Inl e
        | Inr (X, Y, F) \<Rightarrow> Inr (X, Y, [F]))"
    by blast
  from s l0 have single: "\<exists>X Y F. make_gaussian 0 0 1 2 None = Inr (X, Y, F)
         \<and> make_gaussian_stack [0] [0] [1] 2 None = Inr (X, Y, [F])"
    by simp
  have g: "0 < min (length ?xs) (min (length ?ys) (length ?ss))" "(0::nat) < 2"
    "(None::real option) \<noteq> Some 0" "?ss ! 0 \<noteq> 0" "?ss ! 1 \<noteq> 0"
    by simp_all
  from g a l l0 l1 a' l' l0' l1' single show ?thesis by blast
qed

theorem stack_length_and_assertion_witness:
  "min (length ([]::real list)) (min (length [0::real]) (length [1::real])) = 0
   \<and> make_gaussian_stack [] [0] [1] 2 None = Inl AssertionError
   \<and> make_gaussian_mass_stack tanh [] [0] [1] 2 None = Inl AssertionError
   \<and> 0 < min (length [0, 1, 2::real]) (min (length [0, 1::real]) (length [1, 2, 3, 4::real]))
   \<and> (0::nat) < 2 \<and> (None::real option) \<noteq> Some 0
   \<and> [1, 2, 3, 4::real] ! 0 \<noteq> 0 \<and> [1, 2, 3, 4::real] ! 1 \<noteq> 0
   \<and> make_gaussian_stack [0, 1, 2] [0, 1] [1, 2, 3, 4] 2 None \<noteq> Inl AssertionError
   \<and> (\<exists>X Y Z. make_gaussian_stack [0, 1, 2] [0, 1] [1, 2, 3, 4] 2 None = Inr (X, Y, Z)
         \<and> length Z = 2)
   \<and> (\<exists>X Y Z. make_gaussian_mass_stack tanh [0, 1, 2] [0, 1] [1, 2, 3, 4] 2 None
                  = Inr (X, Y, Z)
         \<and> length Z = 2)"
proof -
  let ?xs = "[0, 1, 2::real]" and ?ys = "[0, 1::real]" and ?ss = "[1, 2, 3, 4::real]"
  have k: "min (length ?xs) (min (length ?ys) (length ?ss)) = 2" by simp
  have k0: "min (length ([]::real list)) (min (length [0::real]) (length [1::real])) = 0"
    by simp
  have pre: "0 < min (length ?xs) (min (length ?ys) (length ?ss)) \<and> (0::nat) < 2
      \<and> (None::real option) \<noteq> Some 0
      \<and> (\<forall>i<min (length ?xs) (min (length ?ys) (length ?ss)). ?ss ! i \<noteq> 0)"
    unfolding k by (auto simp: less_Suc_eq numeral_2_eq_2)
  note e = stack_length_and_assertion [of "[]" "[0]" "[1]" 2 None tanh]
  note t = stack_length_and_assertion [of ?xs ?ys ?ss 2 None tanh]
  from e k0 have e1: "make_gaussian_stack [] [0] [1] 2 None = Inl AssertionError"
    and e2: "make_gaussian_mass_stack tanh [] [0] [1] 2 None = Inl AssertionError"
    by blast+
  from t k have n: "make_gaussian_stack ?xs ?ys ?ss 2 None \<noteq> Inl AssertionError"
    by simp
  from t pre have r1: "\<exists>X Y Z. make_gaussian_stack ?xs ?ys ?ss 2 None = Inr (X, Y, Z)
              \<and> length Z = min (length ?xs) (min (length ?ys) (length ?ss))"
    by blast
  from t pre have r2: "\<exists>X Y Z. make_gaussian_mass_stack tanh ?xs ?ys ?ss 2 None = Inr (X, Y, Z)
              \<and> length Z = min (length ?xs) (min (length ?ys) (length ?ss))"
    by blast
  have g: "0 < min (length ?xs) (min (length ?ys) (length ?ss))" "(0::nat) < 2"
    "(None::real option) \<noteq> Some 0" "?ss ! 0 \<noteq> 0" "?ss ! 1 \<noteq> 0"
    by simp_all
  from k0 e1 e2 g n r1 [unfolded k] r2 [unfolded k] show ?thesis by blast
qed

section \<open>Placing blocks\<close>

lemma set_block_length [simp]: "length (set_block M r0 c0 T) = length M"
  by (simp add: set_block_def)

lemma set_block_row_length [simp]:
  "r < length M \<Longrightarrow> length (set_block M r0 c0 T ! r) = length (M ! r)"
  by (simp add: set_block_def)

lemma set_block_nth:
  assumes "r < length M" and "c < length (M ! r)"
  shows "set_block M r0 c0 T ! r ! c =
           (if r0 \<le> r \<and> r < r0 + length T \<and> c0 \<le> c \<and> c < c0 + length (T ! (r - r0))
            then T ! (r - r0) ! (c - c0) else M ! r ! c)"
  using assms by (simp add: set_block_def)

lemma rows_loop_returns:
  assumes "0 < x"
  shows "\<exists>y. rows_loop x y0 n = Some y \<and> y0 \<le> y \<and> n \<le> x * y
             \<and> (\<forall>y'. y0 \<le> y' \<and> y' < y \<longrightarrow> x * y' < n)"
proof (induction "n - x * y0" arbitrary: y0 rule: less_induct)
  case less
  show ?case
  proof (cases "x * y0 < n")
    case True
    have "n - x * (y0 + 1) < n - x * y0"
      using True assms by (simp add: algebra_simps) 
    from less [OF this] obtain y where
      y: "rows_loop x (y0 + 1) n = Some y" "y0 + 1 \<le> y" "n \<le> x * y"
         "\<forall>y'. y0 + 1 \<le> y' \<and> y' < y \<longrightarrow> x * y' < n"
      by blast
    have "rows_loop x y0 n = Some y"
      using True y(1) by (subst rows_loop.simps) simp
    moreover have "\<forall>y'. y0 \<le> y' \<and> y' < y \<longrightarrow> x * y' < n"
    proof (intro allI impI)
      fix y' assume "y0 \<le> y' \<and> y' < y"
      then show "x * y' < n"
        using y(4) True by (cases "y' = y0") auto
    qed
    ultimately show ?thesis using y(2,3) by auto
  next
    case False
    then have "rows_loop x y0 n = Some y0"
      by (subst rows_loop.simps) simp
    with False show ?thesis by auto
  qed
qed

lemma ceil_sqrt_pos: "0 < n \<Longrightarrow> 0 < nat \<lceil>sqrt (real n)\<rceil>"
  by (simp add: less_ceiling_iff)

lemma mosaic_rows:
  assumes "0 < x"
  shows "\<exists>y. rows_loop x (n div x) n = Some y \<and> n \<le> x * y \<and> (\<forall>y'<y. x * y' < n)"
proof -
  from rows_loop_returns [OF assms, of "n div x" n] obtain y where
    y: "rows_loop x (n div x) n = Some y" "n div x \<le> y" "n \<le> x * y"
       "\<forall>y'. n div x \<le> y' \<and> y' < y \<longrightarrow> x * y' < n"
    by blast
  have "\<forall>y'<y. x * y' < n"
  proof (intro allI impI)
    fix y' assume l: "y' < y"
    show "x * y' < n"
    proof (cases "n div x \<le> y'")
      case True
      with y(4) l show ?thesis by simp
    next
      case False
      then have "y' + 1 \<le> n div x" by simp
      then have "x * (y' + 1) \<le> x * (n div x)" by (rule mult_le_mono2)
      also have "\<dots> \<le> n" by simp
      finally show ?thesis using assms by simp
    qed
  qed
  with y show ?thesis by blast
qed

lemma strip_unique:
  fixes j j' :: nat
  assumes "j * pad + j * h \<le> R" "R < j * pad + j * h + h"
    and "j' * pad + j' * h \<le> R" "R < j' * pad + j' * h + h"
  shows "j = j'"
proof -
  have ord: False if "a < b" "b * pad + b * h \<le> R" "R < a * pad + a * h + h" for a b :: nat
  proof -
    from that(1) have "Suc a \<le> b" by simp
    then have "Suc a * (pad + h) \<le> b * (pad + h)" by (rule mult_le_mono1)
    then have "a * pad + a * h + h + pad \<le> b * pad + b * h" by (simp add: algebra_simps)
    with that(2,3) show False by simp
  qed
  show ?thesis
  proof (rule ccontr)
    assume "j \<noteq> j'"
    then consider "j < j'" | "j' < j" by (meson nat_neq_iff)
    then show False
      using ord [of j j'] ord [of j' j] assms by cases auto
  qed
qed

lemma block_unique:
  fixes k k' :: nat
  assumes "(k div x) * pad + (k div x) * h \<le> R" "R < (k div x) * pad + (k div x) * h + h"
    and "(k mod x) * pad + (k mod x) * w \<le> C" "C < (k mod x) * pad + (k mod x) * w + w"
    and "(k' div x) * pad + (k' div x) * h \<le> R" "R < (k' div x) * pad + (k' div x) * h + h"
    and "(k' mod x) * pad + (k' mod x) * w \<le> C" "C < (k' mod x) * pad + (k' mod x) * w + w"
  shows "k = k'"
proof -
  have "k div x = k' div x" using assms(1,2,5,6) by (rule strip_unique)
  moreover have "k mod x = k' mod x" using assms(3,4,7,8) by (rule strip_unique)
  ultimately show ?thesis by (metis div_mult_mod_eq)
qed

lemma tile_loop_length [simp]: "length (tile_loop x h w pad ts img) = length img"
  by (induction ts arbitrary: img) (auto simp: Let_def)

lemma tile_loop_row_length [simp]:
  "R < length img \<Longrightarrow> length (tile_loop x h w pad ts img ! R) = length (img ! R)"
  by (induction ts arbitrary: img) (auto simp: Let_def)

lemma tile_loop_outside:
  assumes "R < length img" "C < length (img ! R)"
    and "\<And>k s. (k, s) \<in> set ts \<Longrightarrow>
           \<not> ((k div x) * pad + (k div x) * h \<le> R \<and> R < (k div x) * pad + (k div x) * h + length s
              \<and> (k mod x) * pad + (k mod x) * w \<le> C
              \<and> C < (k mod x) * pad + (k mod x) * w + length (s ! (R - ((k div x) * pad + (k div x) * h))))"
  shows "tile_loop x h w pad ts img ! R ! C = img ! R ! C"
  using assms
proof (induction ts arbitrary: img)
  case Nil
  then show ?case by simp
next
  case (Cons t ts)
  obtain k s where t: "t = (k, s)" by (cases t)
  let ?img1 = "set_block img ((k div x) * pad + (k div x) * h) ((k mod x) * pad + (k mod x) * w) s"
  have "tile_loop x h w pad (t # ts) img ! R ! C = tile_loop x h w pad ts ?img1 ! R ! C"
    by (simp add: t Let_def)
  also have "\<dots> = ?img1 ! R ! C"
    using Cons.prems by (intro Cons.IH) auto
  also have "\<dots> = img ! R ! C"
    using Cons.prems(1,2) Cons.prems(3) [of k s] by (auto simp: set_block_nth t)
  finally show ?case .
qed

lemma tile_loop_inside:
  assumes "0 < x"
    and "\<And>s. s \<in> set ss \<Longrightarrow> length s = h \<and> (\<forall>row\<in>set s. length row = w)"
    and "R < length img" "C < length (img ! R)"
    and "m \<le> k" "k < m + length ss"
    and "(k div x) * pad + (k div x) * h \<le> R" "R < (k div x) * pad + (k div x) * h + h"
    and "(k mod x) * pad + (k mod x) * w \<le> C" "C < (k mod x) * pad + (k mod x) * w + w"
  shows "tile_loop x h w pad (enumerate m ss) img ! R ! C
         = ss ! (k - m) ! (R - ((k div x) * pad + (k div x) * h))
              ! (C - ((k mod x) * pad + (k mod x) * w))"
  using assms(2-6)
proof (induction ss arbitrary: m img)
  case Nil
  then show ?case by simp
next
  case (Cons s ss)
  let ?img1 = "set_block img ((m div x) * pad + (m div x) * h) ((m mod x) * pad + (m mod x) * w) s"
  have step: "tile_loop x h w pad (enumerate m (s # ss)) img
              = tile_loop x h w pad (enumerate (Suc m) ss) ?img1"
    by (simp add: Let_def)
  have sh: "length s = h" "\<forall>row\<in>set s. length row = w"
    using Cons.prems(1) [of s] by simp_all
  have R1: "R < length ?img1" and C1: "C < length (?img1 ! R)"
    using Cons.prems(2,3) by simp_all
  show ?case
  proof (cases "k = m")
    case True
    have out: "\<not> ((k' div x) * pad + (k' div x) * h \<le> R
              \<and> R < (k' div x) * pad + (k' div x) * h + length s'
              \<and> (k' mod x) * pad + (k' mod x) * w \<le> C
              \<and> C < (k' mod x) * pad + (k' mod x) * w
                      + length (s' ! (R - ((k' div x) * pad + (k' div x) * h))))"
      if "(k', s') \<in> set (enumerate (Suc m) ss)" for k' s'
    proof
      assume b: "(k' div x) * pad + (k' div x) * h \<le> R
              \<and> R < (k' div x) * pad + (k' div x) * h + length s'
              \<and> (k' mod x) * pad + (k' mod x) * w \<le> C
              \<and> C < (k' mod x) * pad + (k' mod x) * w
                      + length (s' ! (R - ((k' div x) * pad + (k' div x) * h)))"
      from that have k': "Suc m \<le> k'" and s': "s' \<in> set ss"
        by (auto simp: in_set_enumerate_eq)
      from Cons.prems(1) [of s'] s' have sh': "length s' = h" "\<forall>row\<in>set s'. length row = w"
        by simp_all
      from b sh'(1) have "R - ((k' div x) * pad + (k' div x) * h) < length s'" by linarith
      then have "s' ! (R - ((k' div x) * pad + (k' div x) * h)) \<in> set s'" by simp
      with sh'(2) have "length (s' ! (R - ((k' div x) * pad + (k' div x) * h))) = w" by simp
      with b sh'(1) have "k = k'"
        using assms(7-10) by (intro block_unique [of k x pad h R w C k']) simp_all
      with k' True show False by simp
    qed
    have "tile_loop x h w pad (enumerate (Suc m) ss) ?img1 ! R ! C = ?img1 ! R ! C"
      using R1 C1 out by (rule tile_loop_outside)
    also have "\<dots> = s ! (R - ((m div x) * pad + (m div x) * h))
                       ! (C - ((m mod x) * pad + (m mod x) * w))"
    proof -
      from assms(7,8) sh(1) have "R - ((m div x) * pad + (m div x) * h) < length s"
        unfolding True by linarith
      then have "s ! (R - ((m div x) * pad + (m div x) * h)) \<in> set s" by simp
      with sh(2) have "length (s ! (R - ((m div x) * pad + (m div x) * h))) = w" by simp
      with assms(7-10) True sh(1) Cons.prems(2,3) show ?thesis
        by (simp add: set_block_nth)
    qed
    finally show ?thesis using True by (simp add: Let_def)
  next
    case False
    with Cons.prems(4,5) have k: "Suc m \<le> k" "k < Suc m + length ss" by simp_all
    have "tile_loop x h w pad (enumerate (Suc m) ss) ?img1 ! R ! C
          = ss ! (k - Suc m) ! (R - ((k div x) * pad + (k div x) * h))
               ! (C - ((k mod x) * pad + (k mod x) * w))"
      using Cons.prems(1) R1 C1 k by (intro Cons.IH) auto
    moreover have "(s # ss) ! (k - m) = ss ! (k - Suc m)"
      using k(1) by (simp add: nth_Cons')
    ultimately show ?thesis by (simp add: Let_def)
  qed
qed

lemma set_block_pixels:
  assumes "\<forall>row\<in>set M. \<forall>p\<in>set row. P p" and "\<forall>row\<in>set T. \<forall>p\<in>set row. P p"
  shows "\<forall>row\<in>set (set_block M r0 c0 T). \<forall>p\<in>set row. P p"
proof (intro ballI)
  fix row p assume "row \<in> set (set_block M r0 c0 T)" "p \<in> set row"
  then obtain r c where r: "r < length M" "row = set_block M r0 c0 T ! r"
    and c: "c < length row" "p = row ! c"
    by (metis in_set_conv_nth set_block_length)
  from r c have c': "c < length (M ! r)" by simp
  have m: "P (M ! r ! c)"
    using assms(1) r(1) c' by (meson nth_mem)
  have t: "P (T ! (r - r0) ! (c - c0))"
    if "r - r0 < length T" "c - c0 < length (T ! (r - r0))"
    using assms(2) that by (meson nth_mem)
  have "p = (if r0 \<le> r \<and> r < r0 + length T \<and> c0 \<le> c \<and> c < c0 + length (T ! (r - r0))
            then T ! (r - r0) ! (c - c0) else M ! r ! c)"
    using r c c' by (simp add: set_block_nth)
  with m t show "P p"
    by (auto split: if_splits simp: less_diff_conv2)
qed

lemma tile_loop_pixels:
  assumes "\<forall>row\<in>set img. \<forall>p\<in>set row. P p"
    and "\<forall>t\<in>set ts. \<forall>row\<in>set (snd t). \<forall>p\<in>set row. P p"
  shows "\<forall>row\<in>set (tile_loop x h w pad ts img). \<forall>p\<in>set row. P p"
  using assms
proof (induction ts arbitrary: img)
  case Nil
  then show ?case by simp
next
  case (Cons t ts)
  obtain k s where t: "t = (k, s)" by (cases t)
  from Cons.prems(2) t have s: "\<forall>row\<in>set s. \<forall>p\<in>set row. P p" by simp
  have "\<forall>row\<in>set (set_block img ((k div x) * pad + (k div x) * h)
                       ((k mod x) * pad + (k mod x) * w) s). \<forall>p\<in>set row. P p"
    using Cons.prems(1) s by (rule set_block_pixels)
  moreover have "\<forall>t\<in>set ts. \<forall>row\<in>set (snd t). \<forall>p\<in>set row. P p"
    using Cons.prems(2) by simp
  ultimately show ?case
    using Cons.IH by (simp add: t Let_def)
qed

lemma block_fits:
  fixes k :: nat
  assumes "0 < x" "k < n" "n \<le> x * y"
  shows "(k div x) * pad + (k div x) * h + h \<le> h * y + (y - 1) * pad"
    and "(k mod x) * pad + (k mod x) * w + w \<le> w * x + (x - 1) * pad"
proof -
  have "k < x * y" using assms(2,3) by simp
  then have "k div x < y" using assms(1) by (simp add: less_mult_imp_div_less mult.commute)
  then have j: "k div x \<le> y - 1" "Suc (k div x) \<le> y" by simp_all
  from j(1) have "(k div x) * pad \<le> (y - 1) * pad" by (rule mult_le_mono1)
  moreover from j(2) have "Suc (k div x) * h \<le> y * h" by (rule mult_le_mono1)
  ultimately show "(k div x) * pad + (k div x) * h + h \<le> h * y + (y - 1) * pad"
    by (simp add: algebra_simps)
  have "k mod x < x" using assms(1) by simp
  then have i: "k mod x \<le> x - 1" "Suc (k mod x) \<le> x" by simp_all
  from i(1) have "(k mod x) * pad \<le> (x - 1) * pad" by (rule mult_le_mono1)
  moreover from i(2) have "Suc (k mod x) * w \<le> x * w" by (rule mult_le_mono1)
  ultimately show "(k mod x) * pad + (k mod x) * w + w \<le> w * x + (x - 1) * pad"
    by (simp add: algebra_simps)
qed

lemma mosaic_cell:
  fixes S :: "'p list list list"
  assumes "0 < x" and "length S \<le> x * y"
    and "\<And>s. s \<in> set S \<Longrightarrow> length s = h \<and> (\<forall>row\<in>set s. length row = w)"
    and "k < length S" "r < h" "c < w"
  shows "tile_loop x h w pad (enumerate 0 S)
           (replicate (h * y + (y - 1) * pad) (replicate (w * x + (x - 1) * pad) z))
           ! ((k div x) * pad + (k div x) * h + r) ! ((k mod x) * pad + (k mod x) * w + c)
         = S ! k ! r ! c"
proof -
  let ?img = "replicate (h * y + (y - 1) * pad) (replicate (w * x + (x - 1) * pad) z)"
  let ?R = "(k div x) * pad + (k div x) * h + r" and ?C = "(k mod x) * pad + (k mod x) * w + c"
  note fit1 = block_fits(1) [OF assms(1,4,2), of pad h]
  note fit2 = block_fits(2) [OF assms(1,4,2), of pad w]
  have R: "?R < length ?img" using fit1 assms(5) by simp
  then have C: "?C < length (?img ! ?R)" using fit2 assms(6) by simp
  have "tile_loop x h w pad (enumerate 0 S) ?img ! ?R ! ?C
        = S ! (k - 0) ! (?R - ((k div x) * pad + (k div x) * h))
            ! (?C - ((k mod x) * pad + (k mod x) * w))"
    using assms(1,3) R C by (rule tile_loop_inside) (use assms(4,5,6) in simp_all)
  then show ?thesis by simp
qed

section \<open>The mosaic\<close>

lemma normalised_range:
  fixes vals :: "real list"
  assumes "v \<in> set vals" and "Min (set vals) \<noteq> Max (set vals)"
  shows "0 \<le> (v - Min (set vals)) / (Max (set vals) - Min (set vals))
         \<and> (v - Min (set vals)) / (Max (set vals) - Min (set vals)) \<le> 1"
proof -
  have lo: "Min (set vals) \<le> v" and hi: "v \<le> Max (set vals)"
    using assms(1) by simp_all
  with assms(2) have "Min (set vals) < Max (set vals)" by linarith
  with lo hi show ?thesis by simp
qed

lemma not_all_equal:
  fixes vals :: "real list"
  assumes "u \<in> set vals" "v \<in> set vals" "u \<noteq> v"
  shows "Min (set vals) \<noteq> Max (set vals)"
proof
  assume e: "Min (set vals) = Max (set vals)"
  have "Min (set vals) \<le> u" "u \<le> Max (set vals)" "Min (set vals) \<le> v" "v \<le> Max (set vals)"
    using assms(1,2) by simp_all
  with e assms(3) show False by linarith
qed

lemma enumerate_snd: "t \<in> set (enumerate m xs) \<Longrightarrow> snd t \<in> set xs"
  by (cases t) (auto simp: in_set_enumerate_eq)

lemma mosaic_vis_grey:
  assumes wf: "\<forall>s\<in>set X. length s = h \<and> (\<forall>row\<in>set s. length row = w)"
    and n: "0 < length X" and h: "0 < h" and w: "0 < w"
    and ne: "Min (set (concat (concat X))) \<noteq> Max (set (concat (concat X)))"
  shows "\<exists>img x y.
           mosaic_vis (Batch3 X) pad None = Some (Inr (Image2 img))
         \<and> x = nat \<lceil>sqrt (real (length X))\<rceil>
         \<and> length X \<le> x * y \<and> (\<forall>y'<y. x * y' < length X)
         \<and> length img = h * y + (y - 1) * pad
         \<and> (\<forall>R<length img. length (img ! R) = w * x + (x - 1) * pad)
         \<and> (\<forall>k<length X. \<forall>r<h. \<forall>c<w.
               img ! ((k div x) * pad + (k div x) * h + r) ! ((k mod x) * pad + (k mod x) * w + c)
               = (X ! k ! r ! c - Min (set (concat (concat X))))
                   / (Max (set (concat (concat X))) - Min (set (concat (concat X)))))
         \<and> (\<forall>R<length img. \<forall>C<length (img ! R). 0 \<le> img ! R ! C \<and> img ! R ! C \<le> 1)"
proof -
  let ?vals = "concat (concat X)"
  let ?f = "\<lambda>v. (v - Min (set ?vals)) / (Max (set ?vals) - Min (set ?vals))"
  let ?S = "map (map (map ?f)) X"
  let ?x = "nat \<lceil>sqrt (real (length X))\<rceil>"
  have x: "0 < ?x" using n by (rule ceil_sqrt_pos)
  from mosaic_rows [OF x, of "length X"] obtain y where
    y: "rows_loop ?x (length X div ?x) (length X) = Some y" "length X \<le> ?x * y"
       "\<forall>y'<y. ?x * y' < length X"
    by blast
  let ?img = "tile_loop ?x h w pad (enumerate 0 ?S)
                (replicate (h * y + (y - 1) * pad) (replicate (w * ?x + (?x - 1) * pad) 0))"
  have X0: "X ! 0 \<in> set X" using n by simp
  with wf have h0: "length (X ! 0) = h" and rows0: "\<forall>row\<in>set (X ! 0). length row = w" by auto
  from h h0 have "X ! 0 ! 0 \<in> set (X ! 0)" by simp
  with rows0 have w0: "length (X ! 0 ! 0) = w" by simp
  have vne: "?vals \<noteq> []"
  proof -
    from w w0 have "X ! 0 ! 0 \<noteq> []" by auto
    moreover have "X ! 0 ! 0 \<in> set (concat X)"
      using X0 \<open>X ! 0 ! 0 \<in> set (X ! 0)\<close> by auto
    ultimately show ?thesis by auto
  qed
  have d: "Max (set ?vals) - Min (set ?vals) \<noteq> 0" using ne by simp
  have run: "mosaic_vis (Batch3 X) pad None = Some (Inr (Image2 ?img))"
    using vne d x y(1) by (simp add: mosaic_vis_def Let_def h0 w0)
  have wfS: "length s = h \<and> (\<forall>row\<in>set s. length row = w)" if "s \<in> set ?S" for s
    using that wf by auto
  have lS: "length ?S = length X" by simp
  have len: "length ?img = h * y + (y - 1) * pad" by simp
  have rlen: "\<forall>R<length ?img. length (?img ! R) = w * ?x + (?x - 1) * pad" by simp
  have cell: "\<forall>k<length X. \<forall>r<h. \<forall>c<w.
               ?img ! ((k div ?x) * pad + (k div ?x) * h + r)
                    ! ((k mod ?x) * pad + (k mod ?x) * w + c) = ?f (X ! k ! r ! c)"
  proof (intro allI impI)
    fix k r c assume k: "k < length X" and r: "r < h" and c: "c < w"
    from k have "X ! k \<in> set X" by simp
    with wf have "length (X ! k) = h" "\<forall>row\<in>set (X ! k). length row = w" by auto
    with r c have rc: "r < length (X ! k)" "c < length (X ! k ! r)" by simp_all
    have "?img ! ((k div ?x) * pad + (k div ?x) * h + r)
               ! ((k mod ?x) * pad + (k mod ?x) * w + c) = ?S ! k ! r ! c"
      using x y(2) wfS k r c by (intro mosaic_cell) simp_all
    with k rc show "?img ! ((k div ?x) * pad + (k div ?x) * h + r)
               ! ((k mod ?x) * pad + (k mod ?x) * w + c) = ?f (X ! k ! r ! c)"
      by simp
  qed
  have px: "\<forall>row\<in>set ?img. \<forall>p\<in>set row. 0 \<le> p \<and> p \<le> 1"
  proof (rule tile_loop_pixels)
    show "\<forall>row\<in>set (replicate (h * y + (y - 1) * pad) (replicate (w * ?x + (?x - 1) * pad) (0::real))).
            \<forall>p\<in>set row. 0 \<le> p \<and> p \<le> 1"
      by auto
    show "\<forall>t\<in>set (enumerate 0 ?S). \<forall>row\<in>set (snd t). \<forall>p\<in>set row. 0 \<le> p \<and> p \<le> 1"
    proof (intro ballI)
      fix t row p assume t: "t \<in> set (enumerate 0 ?S)" and row: "row \<in> set (snd t)"
        and p: "p \<in> set row"
      from t have "snd t \<in> set ?S" by (rule enumerate_snd)
      then obtain s where s: "s \<in> set X" "snd t = map (map ?f) s" by auto
      with row obtain row' where row': "row' \<in> set s" "row = map ?f row'" by auto
      with p obtain v where v: "v \<in> set row'" "p = ?f v" by auto
      from s(1) row'(1) v(1) have "v \<in> set ?vals" by auto
      from normalised_range [OF this ne] v(2) show "0 \<le> p \<and> p \<le> 1" by simp
    qed
  qed
  have rng: "\<forall>R<length ?img. \<forall>C<length (?img ! R). 0 \<le> ?img ! R ! C \<and> ?img ! R ! C \<le> 1"
    using px by (meson nth_mem)
  from run y(2,3) len rlen cell rng show ?thesis by blast
qed

lemma mosaic_vis_colour:
  assumes wf: "\<forall>s\<in>set X.
                 length s = h \<and> (\<forall>row\<in>set s. length row = w \<and> (\<forall>p\<in>set row. length p = c))"
    and n: "0 < length X" and h: "0 < h" and w: "0 < w" and c: "0 < c"
    and ne: "Min (set (concat (concat (concat X)))) \<noteq> Max (set (concat (concat (concat X))))"
  shows "\<exists>img x y.
           mosaic_vis (Batch4 X) pad None = Some (Inr (Image3 img))
         \<and> x = nat \<lceil>sqrt (real (length X))\<rceil>
         \<and> length X \<le> x * y \<and> (\<forall>y'<y. x * y' < length X)
         \<and> length img = h * y + (y - 1) * pad
         \<and> (\<forall>R<length img. length (img ! R) = w * x + (x - 1) * pad)
         \<and> (\<forall>k<length X. \<forall>r<h. \<forall>q<w.
               img ! ((k div x) * pad + (k div x) * h + r) ! ((k mod x) * pad + (k mod x) * w + q)
               = map (\<lambda>v. (v - Min (set (concat (concat (concat X)))))
                            / (Max (set (concat (concat (concat X))))
                                - Min (set (concat (concat (concat X))))))
                   (X ! k ! r ! q))
         \<and> (\<forall>R<length img. \<forall>C<length (img ! R).
               length (img ! R ! C) = c \<and> (\<forall>v\<in>set (img ! R ! C). 0 \<le> v \<and> v \<le> 1))"
proof -
  let ?vals = "concat (concat (concat X))"
  let ?f = "\<lambda>v. (v - Min (set ?vals)) / (Max (set ?vals) - Min (set ?vals))"
  let ?S = "map (map (map (map ?f))) X"
  let ?x = "nat \<lceil>sqrt (real (length X))\<rceil>"
  let ?P = "\<lambda>p. length p = c \<and> (\<forall>v\<in>set p. (0::real) \<le> v \<and> v \<le> 1)"
  have x: "0 < ?x" using n by (rule ceil_sqrt_pos)
  from mosaic_rows [OF x, of "length X"] obtain y where
    y: "rows_loop ?x (length X div ?x) (length X) = Some y" "length X \<le> ?x * y"
       "\<forall>y'<y. ?x * y' < length X"
    by blast
  let ?img = "tile_loop ?x h w pad (enumerate 0 ?S)
                (replicate (h * y + (y - 1) * pad)
                   (replicate (w * ?x + (?x - 1) * pad) (replicate c 0)))"
  have X0: "X ! 0 \<in> set X" using n by simp
  with wf have h0: "length (X ! 0) = h"
    and rows0: "\<forall>row\<in>set (X ! 0). length row = w \<and> (\<forall>p\<in>set row. length p = c)" by auto
  from h h0 have X00: "X ! 0 ! 0 \<in> set (X ! 0)" by simp
  with rows0 have w0: "length (X ! 0 ! 0) = w" and px0: "\<forall>p\<in>set (X ! 0 ! 0). length p = c"
    by auto
  from w w0 have X000: "X ! 0 ! 0 ! 0 \<in> set (X ! 0 ! 0)" by simp
  with px0 have c0: "length (X ! 0 ! 0 ! 0) = c" by simp
  have vne: "?vals \<noteq> []"
  proof -
    from c c0 have "X ! 0 ! 0 ! 0 \<noteq> []" by auto
    moreover have "X ! 0 ! 0 ! 0 \<in> set (concat (concat X))"
      using X0 X00 X000 by auto
    ultimately show ?thesis by auto
  qed
  have d: "Max (set ?vals) - Min (set ?vals) \<noteq> 0" using ne by simp
  have run: "mosaic_vis (Batch4 X) pad None = Some (Inr (Image3 ?img))"
    using vne d x y(1) by (simp add: mosaic_vis_def Let_def h0 w0 c0)
  have wfS: "length s = h \<and> (\<forall>row\<in>set s. length row = w)" if "s \<in> set ?S" for s
    using that wf by auto
  have len: "length ?img = h * y + (y - 1) * pad" by simp
  have rlen: "\<forall>R<length ?img. length (?img ! R) = w * ?x + (?x - 1) * pad" by simp
  have cell: "\<forall>k<length X. \<forall>r<h. \<forall>q<w.
               ?img ! ((k div ?x) * pad + (k div ?x) * h + r)
                    ! ((k mod ?x) * pad + (k mod ?x) * w + q) = map ?f (X ! k ! r ! q)"
  proof (intro allI impI)
    fix k r q assume k: "k < length X" and r: "r < h" and q: "q < w"
    from k have "X ! k \<in> set X" by simp
    with wf have hk: "length (X ! k) = h" and rk: "\<forall>row\<in>set (X ! k). length row = w" by auto
    from r hk have "X ! k ! r \<in> set (X ! k)" by simp
    with rk have "length (X ! k ! r) = w" by simp
    with r q hk have rc: "r < length (X ! k)" "q < length (X ! k ! r)" by simp_all
    have "?img ! ((k div ?x) * pad + (k div ?x) * h + r)
               ! ((k mod ?x) * pad + (k mod ?x) * w + q) = ?S ! k ! r ! q"
      using x y(2) wfS k r q by (intro mosaic_cell) simp_all
    with k rc show "?img ! ((k div ?x) * pad + (k div ?x) * h + r)
               ! ((k mod ?x) * pad + (k mod ?x) * w + q) = map ?f (X ! k ! r ! q)"
      by simp
  qed
  have px: "\<forall>row\<in>set ?img. \<forall>p\<in>set row. ?P p"
  proof (rule tile_loop_pixels)
    show "\<forall>row\<in>set (replicate (h * y + (y - 1) * pad)
                      (replicate (w * ?x + (?x - 1) * pad) (replicate c (0::real)))).
            \<forall>p\<in>set row. ?P p"
      by auto
    show "\<forall>t\<in>set (enumerate 0 ?S). \<forall>row\<in>set (snd t). \<forall>p\<in>set row. ?P p"
    proof (intro ballI)
      fix t row p assume t: "t \<in> set (enumerate 0 ?S)" and row: "row \<in> set (snd t)"
        and p: "p \<in> set row"
      from t have "snd t \<in> set ?S" by (rule enumerate_snd)
      then obtain s where s: "s \<in> set X" "snd t = map (map (map ?f)) s" by auto
      with row obtain row' where row': "row' \<in> set s" "row = map (map ?f) row'" by auto
      with p obtain p' where p': "p' \<in> set row'" "p = map ?f p'" by auto
      from wf s(1) row'(1) p'(1) have lp: "length p' = c" by auto
      have "0 \<le> ?f v \<and> ?f v \<le> 1" if "v \<in> set p'" for v
      proof -
        from s(1) row'(1) p'(1) that have "v \<in> set ?vals" by auto
        from normalised_range [OF this ne] show ?thesis .
      qed
      with lp p'(2) show "?P p" by auto
    qed
  qed
  have rng: "\<forall>R<length ?img. \<forall>C<length (?img ! R). ?P (?img ! R ! C)"
    using px by (meson nth_mem)
  from run y(2,3) len rlen cell rng show ?thesis by blast
qed

lemma all_equal_iff:
  fixes vals :: "real list"
  assumes "vals \<noteq> []"
  shows "Max (set vals) - Min (set vals) = 0 \<longleftrightarrow> (\<forall>u\<in>set vals. \<forall>v\<in>set vals. u = v)"
proof
  assume z: "Max (set vals) - Min (set vals) = 0"
  show "\<forall>u\<in>set vals. \<forall>v\<in>set vals. u = v"
  proof (intro ballI)
    fix u v assume "u \<in> set vals" "v \<in> set vals"
    then have "Min (set vals) \<le> u" "u \<le> Max (set vals)"
      "Min (set vals) \<le> v" "v \<le> Max (set vals)" by simp_all
    with z show "u = v" by linarith
  qed
next
  assume e: "\<forall>u\<in>set vals. \<forall>v\<in>set vals. u = v"
  from assms have "Min (set vals) \<in> set vals" "Max (set vals) \<in> set vals"
    by (simp_all add: Min_in Max_in)
  with e show "Max (set vals) - Min (set vals) = 0" by auto
qed

lemma mosaic_vis_grey_nonfinite:
  "mosaic_vis (Batch3 X) pad save_path = Some (Inl NonFinite)
   \<longleftrightarrow> concat (concat X) \<noteq> []
       \<and> (\<forall>u\<in>set (concat (concat X)). \<forall>v\<in>set (concat (concat X)). u = v)"
proof (cases "concat (concat X) = []")
  case True
  then show ?thesis by (simp add: mosaic_vis_def)
next
  case False
  show ?thesis
  proof (cases "Max (set (concat (concat X))) - Min (set (concat (concat X))) = 0")
    case True
    with False all_equal_iff [OF False] show ?thesis
      by (simp add: mosaic_vis_def Let_def)
  next
    case nz: False
    have "mosaic_vis (Batch3 X) pad save_path \<noteq> Some (Inl NonFinite)"
      using False nz by (auto simp: mosaic_vis_def Let_def split: option.splits)
    with nz all_equal_iff [OF False] show ?thesis by blast
  qed
qed

lemma mosaic_vis_colour_nonfinite:
  "mosaic_vis (Batch4 X) pad save_path = Some (Inl NonFinite)
   \<longleftrightarrow> concat (concat (concat X)) \<noteq> []
       \<and> (\<forall>u\<in>set (concat (concat (concat X))). \<forall>v\<in>set (concat (concat (concat X))). u = v)"
proof (cases "concat (concat (concat X)) = []")
  case True
  then show ?thesis by (simp add: mosaic_vis_def)
next
  case False
  show ?thesis
  proof (cases "Max (set (concat (concat (concat X)))) - Min (set (concat (concat (concat X)))) = 0")
    case True
    with False all_equal_iff [OF False] show ?thesis
      by (simp add: mosaic_vis_def Let_def)
  next
    case nz: False
    have "mosaic_vis (Batch4 X) pad save_path \<noteq> Some (Inl NonFinite)"
      using False nz by (auto simp: mosaic_vis_def Let_def split: option.splits)
    with nz all_equal_iff [OF False] show ?thesis by blast
  qed
qed

text \<open>
  Claim C9. The normalisation \<^verbatim>\<open>(X - xmin) / (xmax - xmin)\<close> of \<^verbatim>\<open>mosaic_vis\<close> has no
  guard: for a batch that has pixels, grey or with channels, the division by zero is
  reached exactly when all pixel values are equal, whatever \<open>pad\<close> and \<open>save_path\<close> are.
\<close>

theorem mosaic_vis_zero_range:
  "(mosaic_vis (Batch3 X3) pad save_path = Some (Inl NonFinite)
      \<longleftrightarrow> concat (concat X3) \<noteq> []
          \<and> (\<forall>u\<in>set (concat (concat X3)). \<forall>v\<in>set (concat (concat X3)). u = v))
   \<and> (mosaic_vis (Batch4 X4) pad save_path = Some (Inl NonFinite)
      \<longleftrightarrow> concat (concat (concat X4)) \<noteq> []
          \<and> (\<forall>u\<in>set (concat (concat (concat X4))).
                \<forall>v\<in>set (concat (concat (concat X4))). u = v))"
proof
  show "mosaic_vis (Batch3 X3) pad save_path = Some (Inl NonFinite)
      \<longleftrightarrow> concat (concat X3) \<noteq> []
          \<and> (\<forall>u\<in>set (concat (concat X3)). \<forall>v\<in>set (concat (concat X3)). u = v)"
    by (rule mosaic_vis_grey_nonfinite)
  show "mosaic_vis (Batch4 X4) pad save_path = Some (Inl NonFinite)
      \<longleftrightarrow> concat (concat (concat X4)) \<noteq> []
          \<and> (\<forall>u\<in>set (concat (concat (concat X4))).
                \<forall>v\<in>set (concat (concat (concat X4))). u = v)"
    by (rule mosaic_vis_colour_nonfinite)
qed

theorem mosaic_vis_zero_range_witness:
  "mosaic_vis (Batch3 [[[5, 5], [5, 5]], [[5, 5], [5, 5]]]) 0 None = Some (Inl NonFinite)
   \<and> mosaic_vis (Batch4 [[[[7, 7, 7]]]]) 1 None = Some (Inl NonFinite)
   \<and> mosaic_vis (Batch3 [[[5, 5], [5, 6]]]) 0 None \<noteq> Some (Inl NonFinite)"
proof -
  note a = mosaic_vis_zero_range [of "[[[5, 5], [5, 5]], [[5, 5], [5, 5]]]" 0 None "[[[[7, 7, 7]]]]"]
  note b = mosaic_vis_zero_range [of "[[[5, 5], [5, 6]]]" 0 None "[[[[7, 7, 7]]]]"]
  have "mosaic_vis (Batch3 [[[5, 5], [5, 5]], [[5, 5], [5, 5]]]) 0 None = Some (Inl NonFinite)"
    using a by simp
  moreover have "mosaic_vis (Batch4 [[[[7, 7, 7]]]]) 1 None = Some (Inl NonFinite)"
    using mosaic_vis_zero_range [of "[]" 1 None "[[[[7, 7, 7]]]]"] by simp
  moreover have "mosaic_vis (Batch3 [[[5, 5], [5, 6]]]) 0 None \<noteq> Some (Inl NonFinite)"
    using b by simp
  ultimately show ?thesis by blast
qed

lemma grid_of_four:
  fixes y :: nat
  assumes "4 \<le> 2 * y" and "\<forall>y'<y. 2 * y' < (4::nat)"
  shows "y = 2"
proof (rule ccontr)
  assume "y \<noteq> 2"
  with assms(1) have "2 < y" by simp
  with assms(2) have "2 * 2 < (4::nat)" by blast
  then show False by simp
qed



section \<open>Placing tiles at random offsets\<close>

lemma randint_draws:
  assumes "low < high"
  shows "randint g low high n
           = Inr (map (\<lambda>i. low + int (g i mod nat (high - low))) [0..<n], \<lambda>i. g (i + n))"
  using assms by (cases "n = 0") (simp_all add: randint_def)

lemma randint_refused: "high \<le> low \<Longrightarrow> 0 < n \<Longrightarrow> randint g low high n = Inl ValueError"
  by (simp add: randint_def)

lemma randint_empty: "randint g low high 0 = Inr ([], g)"
  by (simp add: randint_def)

lemma assign_tile_square:
  assumes "shape tile = (B, F, dx, dx)"
  shows "assign_tile A b px py tile
           = Inr (A\<lparr>elems := (elems A)[b :=
                    map2 (\<lambda>plane t. set_block plane px py t) (elems A ! b) (elems tile ! b)]\<rparr>)"
  using assms by (simp add: assign_tile_def)

lemma place_loop_square:
  assumes "shape tile = (B, F, dx, dx)" and "distinct bs"
  shows "\<exists>A'. place_loop tile pos_x pos_y bs A = Inr A' \<and> shape A' = shape A
            \<and> length (elems A') = length (elems A)
            \<and> (\<forall>b<length (elems A).
                  elems A' ! b =
                    (if b \<in> set bs
                     then map2 (\<lambda>plane t. set_block plane (nat (pos_x ! b)) (nat (pos_y ! b)) t)
                            (elems A ! b) (elems tile ! b)
                     else elems A ! b))"
  using assms(2)
proof (induction bs arbitrary: A)
  case Nil
  then show ?case by simp
next
  case (Cons b bs)
  let ?new = "map2 (\<lambda>plane t. set_block plane (nat (pos_x ! b)) (nat (pos_y ! b)) t)
                (elems A ! b) (elems tile ! b)"
  let ?A1 = "A\<lparr>elems := (elems A)[b := ?new]\<rparr>"
  from Cons.prems have d: "distinct bs" and nb: "b \<notin> set bs" by simp_all
  from Cons.IH [OF d, of ?A1] obtain A' where
    r: "place_loop tile pos_x pos_y bs ?A1 = Inr A'" and s: "shape A' = shape A" and
    l: "length (elems A') = length (elems A)" and
    e: "\<forall>b'<length (elems A).
          elems A' ! b' =
            (if b' \<in> set bs
             then map2 (\<lambda>plane t. set_block plane (nat (pos_x ! b')) (nat (pos_y ! b')) t)
                    (elems ?A1 ! b') (elems tile ! b')
             else elems ?A1 ! b')"
    by auto
  have run: "place_loop tile pos_x pos_y (b # bs) A = Inr A'"
    using r by (simp add: assign_tile_square [OF assms(1)])
  have e': "\<forall>b'<length (elems A).
          elems A' ! b' =
            (if b' \<in> set (b # bs)
             then map2 (\<lambda>plane t. set_block plane (nat (pos_x ! b')) (nat (pos_y ! b')) t)
                    (elems A ! b') (elems tile ! b')
             else elems A ! b')"
  proof (intro allI impI)
    fix b' assume b': "b' < length (elems A)"
    show "elems A' ! b' =
            (if b' \<in> set (b # bs)
             then map2 (\<lambda>plane t. set_block plane (nat (pos_x ! b')) (nat (pos_y ! b')) t)
                    (elems A ! b') (elems tile ! b')
             else elems A ! b')"
    proof (cases "b' = b")
      case True
      with e b' nb show ?thesis by simp
    next
      case False
      with e b' show ?thesis by simp
    qed
  qed
  from run s l e' show ?case by blast
qed

lemma wf_ndarray4_nth:
  assumes "wf_ndarray4 a" and "shape a = (d0, d1, d2, d3)"
  shows "length (elems a) = d0"
    and "b < d0 \<Longrightarrow> length (elems a ! b) = d1"
    and "b < d0 \<Longrightarrow> f < d1 \<Longrightarrow> length (elems a ! b ! f) = d2"
    and "b < d0 \<Longrightarrow> f < d1 \<Longrightarrow> r < d2 \<Longrightarrow> length (elems a ! b ! f ! r) = d3"
  using assms by (auto simp: wf_ndarray4_def list_all_length)

lemma wf_ndarray4_I:
  assumes "shape a = (d0, d1, d2, d3)" and "length (elems a) = d0"
    and "\<And>b. b < d0 \<Longrightarrow> length (elems a ! b) = d1"
    and "\<And>b f. b < d0 \<Longrightarrow> f < d1 \<Longrightarrow> length (elems a ! b ! f) = d2"
    and "\<And>b f r. b < d0 \<Longrightarrow> f < d1 \<Longrightarrow> r < d2 \<Longrightarrow> length (elems a ! b ! f ! r) = d3"
  shows "wf_ndarray4 a"
  using assms by (auto simp: wf_ndarray4_def list_all_length)

lemma set_block_zeros_nth:
  assumes "r < N" "c < N" and "length T = dx" and "\<And>i. i < dx \<Longrightarrow> length (T ! i) = dx"
  shows "set_block (replicate N (replicate N (0::real))) px py T ! r ! c
         = (if px \<le> r \<and> r < px + dx \<and> py \<le> c \<and> c < py + dx
            then T ! (r - px) ! (c - py) else 0)"
proof (cases "px \<le> r \<and> r < px + dx")
  case True
  then have "r - px < dx" by linarith
  with assms(4) have "length (T ! (r - px)) = dx" by simp
  with True assms(1,2,3) show ?thesis by (simp add: set_block_nth)
next
  case False
  with assms(1,2,3) show ?thesis by (auto simp: set_block_nth)
qed

lemma place_tile_in_refused:
  assumes "shape tile = (B, F, dx, dy)" and "new_npx \<le> dx" and "0 < B"
  shows "place_tile_in g tile new_npx = Inl ValueError"
  using assms by (simp add: place_tile_in_def Let_def randint_refused)

lemma place_tile_in_empty:
  assumes "shape tile = (0, F, dx, dy)"
  shows "place_tile_in g tile new_npx
           = Inr (\<lparr>shape = (0, F, new_npx, new_npx), elems = []\<rparr>, g)"
  using assms by (simp add: place_tile_in_def Let_def randint_empty)

lemma place_tile_in_placed:
  assumes wf: "wf_ndarray4 tile" and sh: "shape tile = (B, F, dx, dx)" and lt: "dx < new_npx"
  shows "\<exists>A. place_tile_in g tile new_npx = Inr (A, \<lambda>i. g (i + B + B))
             \<and> shape A = (B, F, new_npx, new_npx) \<and> length (elems A) = B
             \<and> (\<forall>b<B. elems A ! b =
                   map2 (\<lambda>plane t. set_block plane (g b mod (new_npx - dx))
                                      (g (b + B) mod (new_npx - dx)) t)
                     (replicate F (replicate new_npx (replicate new_npx 0))) (elems tile ! b))"
proof -
  let ?m = "new_npx - dx"
  let ?A0 = "\<lparr>shape = (B, F, new_npx, new_npx),
              elems = replicate B (replicate F (replicate new_npx (replicate new_npx (0::real))))\<rparr>"
  let ?px = "map (\<lambda>i. 0 + int (g i mod nat (int new_npx - int dx))) [0..<B]"
  let ?py = "map (\<lambda>i. 0 + int (g (i + B) mod nat (int new_npx - int dx))) [0..<B]"
  have m: "nat (int new_npx - int dx) = ?m" by simp
  have pos: "(0::int) < int new_npx - int dx" using lt by simp
  from place_loop_square [OF sh, of "[0..<B]" ?px ?py ?A0] obtain A' where
    r: "place_loop tile ?px ?py [0..<B] ?A0 = Inr A'" and s: "shape A' = shape ?A0" and
    l: "length (elems A') = length (elems ?A0)" and
    e: "\<forall>b<length (elems ?A0).
          elems A' ! b =
            (if b \<in> set [0..<B]
             then map2 (\<lambda>plane t. set_block plane (nat (?px ! b)) (nat (?py ! b)) t)
                    (elems ?A0 ! b) (elems tile ! b)
             else elems ?A0 ! b)"
    by auto
  have run: "place_tile_in g tile new_npx = Inr (A', \<lambda>i. g (i + B + B))"
    using r by (simp add: place_tile_in_def sh Let_def randint_draws [OF pos])
  have cells: "\<forall>b<B. elems A' ! b =
                   map2 (\<lambda>plane t. set_block plane (g b mod ?m) (g (b + B) mod ?m) t)
                     (replicate F (replicate new_npx (replicate new_npx 0))) (elems tile ! b)"
    using e by (simp add: m)
  from run s l cells show ?thesis by auto
qed

lemma tile_fits:
  fixes g :: "nat \<Rightarrow> nat"
  assumes "dx < new_npx"
  shows "g i mod (new_npx - dx) + dx < new_npx"
proof -
  have "g i mod (new_npx - dx) < new_npx - dx" using assms by simp
  then show ?thesis by simp
qed

lemma any_offsets_drawn:
  assumes "length pxs = B" "length pys = B" and "0 < m"
    and "\<forall>b<B. pxs ! b < m \<and> pys ! b < m"
  shows "\<exists>g::nat \<Rightarrow> nat. \<forall>b<B. g b mod m = pxs ! b \<and> g (b + B) mod m = pys ! b"
proof (intro exI allI impI)
  fix b assume "b < B"
  with assms(4)
  show "(\<lambda>i. if i < B then pxs ! i else pys ! (i - B)) b mod m = pxs ! b
        \<and> (\<lambda>i. if i < B then pxs ! i else pys ! (i - B)) (b + B) mod m = pys ! b"
    by simp
qed

text \<open>
  The draw of the offsets does not fail for every \<open>new_npx \<le> dx\<close>: on the empty batch of
  shape \<open>(0, 1, 2, 2)\<close> and \<open>new_npx = 2\<close> the call returns the empty array and leaves the
  random source as it was.
\<close>

theorem place_tile_in_empty_batch_returns:
  "wf_ndarray4 \<lparr>shape = (0, 1, 2, 2), elems = []\<rparr> \<and> (2::nat) \<le> 2
   \<and> place_tile_in id \<lparr>shape = (0, 1, 2, 2), elems = []\<rparr> 2
       = Inr (\<lparr>shape = (0, 1, 2, 2), elems = []\<rparr>, id)
   \<and> place_tile_in id \<lparr>shape = (0, 1, 2, 2), elems = []\<rparr> 2 \<noteq> Inl ValueError"
proof -
  have "place_tile_in id \<lparr>shape = (0, 1, 2, 2), elems = []\<rparr> 2
       = Inr (\<lparr>shape = (0, 1, 2, 2), elems = []\<rparr>, id)"
    by (rule place_tile_in_empty) simp
  then show ?thesis by (simp add: wf_ndarray4_def)
qed

text \<open>
  Claim C7. Let \<open>tile\<close> be a well-formed batch of shape \<open>(B, F, dx, dx)\<close>. For
  \<open>new_npx > dx\<close>, \<^verbatim>\<open>place_tile_in\<close> returns a well-formed array of shape
  \<open>(B, F, new_npx, new_npx)\<close>; for every batch element \<open>b\<close> there are offsets
  \<open>px, py \<le> new_npx - dx - 1\<close>, drawn from the entries \<open>b\<close> and \<open>b + B\<close> of the random
  stream, such that in every feature plane the \<open>dx\<close> by \<open>dx\<close> block at \<open>(px, py)\<close> is the
  tile of \<open>b\<close> and every entry outside the block is zero; and every choice of such offsets
  for the batch elements is drawn by some random stream. For \<open>new_npx \<le> dx\<close> and a batch
  that is not empty the draw of the offsets fails with \<^verbatim>\<open>ValueError\<close>; on an empty
  batch nothing is drawn and the empty array of shape \<open>(0, F, new_npx, new_npx)\<close> is
  returned, whatever \<open>new_npx\<close> is.
\<close>

theorem place_tile_in_embeds:
  assumes "wf_ndarray4 tile" and "shape tile = (B, F, dx, dx)"
  shows "(dx < new_npx \<longrightarrow>
           (\<exists>A g'. place_tile_in g tile new_npx = Inr (A, g')
              \<and> shape A = (B, F, new_npx, new_npx) \<and> wf_ndarray4 A
              \<and> (\<forall>b<B. \<exists>px py.
                    px = g b mod (new_npx - dx) \<and> py = g (b + B) mod (new_npx - dx)
                  \<and> px \<le> new_npx - dx - 1 \<and> py \<le> new_npx - dx - 1
                  \<and> (\<forall>f<F. \<forall>r<new_npx. \<forall>c<new_npx.
                        elems A ! b ! f ! r ! c =
                          (if px \<le> r \<and> r < px + dx \<and> py \<le> c \<and> c < py + dx
                           then elems tile ! b ! f ! (r - px) ! (c - py) else 0))))
           \<and> (\<forall>pxs pys. length pxs = B \<and> length pys = B
                  \<and> (\<forall>b<B. pxs ! b \<le> new_npx - dx - 1 \<and> pys ! b \<le> new_npx - dx - 1)
                \<longrightarrow> (\<exists>g0::nat \<Rightarrow> nat. \<forall>b<B. g0 b mod (new_npx - dx) = pxs ! b
                                     \<and> g0 (b + B) mod (new_npx - dx) = pys ! b)))
       \<and> (new_npx \<le> dx \<and> 0 < B \<longrightarrow> place_tile_in g tile new_npx = Inl ValueError)
       \<and> (B = 0 \<longrightarrow>
            place_tile_in g tile new_npx
              = Inr (\<lparr>shape = (0, F, new_npx, new_npx), elems = []\<rparr>, g))"
proof (intro conjI impI allI)
  assume lt: "dx < new_npx"
  let ?m = "new_npx - dx"
  let ?Z = "replicate new_npx (replicate new_npx (0::real))"
  from place_tile_in_placed [OF assms lt, of g] obtain A where
    run: "place_tile_in g tile new_npx = Inr (A, \<lambda>i. g (i + B + B))" and
    s: "shape A = (B, F, new_npx, new_npx)" and l: "length (elems A) = B" and
    e: "\<forall>b<B. elems A ! b =
           map2 (\<lambda>plane t. set_block plane (g b mod ?m) (g (b + B) mod ?m) t)
             (replicate F ?Z) (elems tile ! b)"
    by blast
  note tw = wf_ndarray4_nth [OF assms]
  have plane: "elems A ! b ! f = set_block ?Z (g b mod ?m) (g (b + B) mod ?m) (elems tile ! b ! f)"
    if "b < B" "f < F" for b f
    using e that tw(2) [of b] by simp
  have lenb: "length (elems A ! b) = F" if "b < B" for b
    using e that tw(2) [of b] by simp
  have wfA: "wf_ndarray4 A"
    using s l lenb by (rule wf_ndarray4_I) (simp_all add: plane)
  have cell: "elems A ! b ! f ! r ! c =
                (if g b mod ?m \<le> r \<and> r < g b mod ?m + dx
                    \<and> g (b + B) mod ?m \<le> c \<and> c < g (b + B) mod ?m + dx
                 then elems tile ! b ! f ! (r - g b mod ?m) ! (c - g (b + B) mod ?m) else 0)"
    if "b < B" "f < F" "r < new_npx" "c < new_npx" for b f r c
    unfolding plane [OF that(1,2)]
    using that(3,4) tw(3) [OF that(1,2)] tw(4) [OF that(1,2)]
    by (rule set_block_zeros_nth)
  have off: "g i mod ?m \<le> new_npx - dx - 1" for i
  proof -
    have "g i mod ?m < ?m" using lt by simp
    then show ?thesis by simp
  qed
  have elt: "\<forall>b<B. \<exists>px py.
                    px = g b mod ?m \<and> py = g (b + B) mod ?m
                  \<and> px \<le> new_npx - dx - 1 \<and> py \<le> new_npx - dx - 1
                  \<and> (\<forall>f<F. \<forall>r<new_npx. \<forall>c<new_npx.
                        elems A ! b ! f ! r ! c =
                          (if px \<le> r \<and> r < px + dx \<and> py \<le> c \<and> c < py + dx
                           then elems tile ! b ! f ! (r - px) ! (c - py) else 0))"
    using cell off by simp
  from run s wfA elt
  show "\<exists>A g'. place_tile_in g tile new_npx = Inr (A, g')
              \<and> shape A = (B, F, new_npx, new_npx) \<and> wf_ndarray4 A
              \<and> (\<forall>b<B. \<exists>px py.
                    px = g b mod (new_npx - dx) \<and> py = g (b + B) mod (new_npx - dx)
                  \<and> px \<le> new_npx - dx - 1 \<and> py \<le> new_npx - dx - 1
                  \<and> (\<forall>f<F. \<forall>r<new_npx. \<forall>c<new_npx.
                        elems A ! b ! f ! r ! c =
                          (if px \<le> r \<and> r < px + dx \<and> py \<le> c \<and> c < py + dx
                           then elems tile ! b ! f ! (r - px) ! (c - py) else 0)))"
    by (intro exI conjI) assumption+
next
  fix pxs pys :: "nat list"
  assume lt: "dx < new_npx"
    and a: "length pxs = B \<and> length pys = B
            \<and> (\<forall>b<B. pxs ! b \<le> new_npx - dx - 1 \<and> pys ! b \<le> new_npx - dx - 1)"
  from lt have m: "0 < new_npx - dx" by simp
  from a lt have "\<forall>b<B. pxs ! b < new_npx - dx \<and> pys ! b < new_npx - dx"
    by (auto simp: less_eq_Suc_le [symmetric] dest!: spec)
  with a m show "\<exists>g0::nat \<Rightarrow> nat. \<forall>b<B. g0 b mod (new_npx - dx) = pxs ! b
                                     \<and> g0 (b + B) mod (new_npx - dx) = pys ! b"
    by (intro any_offsets_drawn) simp_all
next
  assume "new_npx \<le> dx \<and> 0 < B"
  then have "new_npx \<le> dx" and "0 < B" by simp_all
  with assms(2) show "place_tile_in g tile new_npx = Inl ValueError"
    by (rule place_tile_in_refused)
next
  assume "B = 0"
  with assms(2) have "shape tile = (0, F, dx, dx)" by simp
  then show "place_tile_in g tile new_npx
              = Inr (\<lparr>shape = (0, F, new_npx, new_npx), elems = []\<rparr>, g)"
    by (rule place_tile_in_empty)
qed

theorem place_tile_in_embeds_witness:
  "wf_ndarray4 \<lparr>shape = (1, 1, 1, 1), elems = [[[[7]]]]\<rparr>
   \<and> shape \<lparr>shape = (1, 1, 1, 1), elems = [[[[7]]]]\<rparr> = (1, 1, 1, 1)
   \<and> (1::nat) < 3
   \<and> (\<exists>A g'. place_tile_in (\<lambda>i. i + 1) \<lparr>shape = (1, 1, 1, 1), elems = [[[[7]]]]\<rparr> 3
                  = Inr (A, g')
         \<and> shape A = (1, 1, 3, 3) \<and> wf_ndarray4 A
         \<and> elems A ! 0 ! 0 ! 1 ! 0 = 7 \<and> elems A ! 0 ! 0 ! 0 ! 0 = 0
         \<and> elems A ! 0 ! 0 ! 1 ! 1 = 0 \<and> elems A ! 0 ! 0 ! 2 ! 2 = 0)
   \<and> (1::nat) \<le> 1 \<and> (0::nat) < 1
   \<and> place_tile_in (\<lambda>i. i + 1) \<lparr>shape = (1, 1, 1, 1), elems = [[[[7]]]]\<rparr> 1 = Inl ValueError
   \<and> wf_ndarray4 \<lparr>shape = (0, 1, 1, 1), elems = []\<rparr>
   \<and> place_tile_in Suc \<lparr>shape = (0, 1, 1, 1), elems = []\<rparr> 1
       = Inr (\<lparr>shape = (0, 1, 1, 1), elems = []\<rparr>, Suc)"
proof -
  define tile where "tile = \<lparr>shape = (1::nat, 1::nat, 1::nat, 1::nat), elems = [[[[7::real]]]]\<rparr>"
  define g :: "nat \<Rightarrow> nat" where "g = (\<lambda>i. i + 1)"
  have wf: "wf_ndarray4 tile" by (simp add: tile_def wf_ndarray4_def)
  have sh: "shape tile = (1, 1, 1, 1)" by (simp add: tile_def)
  note t3 = place_tile_in_embeds [OF wf sh, of 3 g]
  note t1 = place_tile_in_embeds [OF wf sh, of 1 g]
  from t1 have refused: "place_tile_in g tile 1 = Inl ValueError" by simp
  from t3 have "\<exists>A g'. place_tile_in g tile 3 = Inr (A, g')
              \<and> shape A = (1, 1, 3, 3) \<and> wf_ndarray4 A
              \<and> (\<forall>b<1. \<exists>px py.
                    px = g b mod (3 - 1) \<and> py = g (b + 1) mod (3 - 1)
                  \<and> px \<le> 3 - 1 - 1 \<and> py \<le> 3 - 1 - 1
                  \<and> (\<forall>f<1. \<forall>r<3. \<forall>c<3.
                        elems A ! b ! f ! r ! c =
                          (if px \<le> r \<and> r < px + 1 \<and> py \<le> c \<and> c < py + 1
                           then elems tile ! b ! f ! (r - px) ! (c - py) else 0)))"
    by simp
  then obtain A g' where
    run: "place_tile_in g tile 3 = Inr (A, g')" and s: "shape A = (1, 1, 3, 3)" and
    w: "wf_ndarray4 A" and
    e: "\<forall>b<1. \<exists>px py.
                    px = g b mod (3 - 1) \<and> py = g (b + 1) mod (3 - 1)
                  \<and> px \<le> 3 - 1 - 1 \<and> py \<le> 3 - 1 - 1
                  \<and> (\<forall>f<1. \<forall>r<3. \<forall>c<3.
                        elems A ! b ! f ! r ! c =
                          (if px \<le> r \<and> r < px + 1 \<and> py \<le> c \<and> c < py + 1
                           then elems tile ! b ! f ! (r - px) ! (c - py) else 0))"
    by (elim exE conjE) (rule that, assumption+)
  have px: "g 0 mod (3 - 1) = 1" and py: "g (0 + 1) mod (3 - 1) = 0"
    by (simp_all add: g_def)
  from e px py have c: "\<forall>f<1. \<forall>r<3. \<forall>c<3.
       elems A ! 0 ! f ! r ! c =
         (if 1 \<le> r \<and> r < 1 + 1 \<and> 0 \<le> c \<and> c < 0 + 1
          then elems tile ! 0 ! f ! (r - 1) ! (c - 0) else 0)"
    by auto
  have t0: "elems tile ! 0 ! 0 ! 0 ! 0 = 7" by (simp add: tile_def)
  from c t0 have v: "elems A ! 0 ! 0 ! 1 ! 0 = 7" "elems A ! 0 ! 0 ! 0 ! 0 = 0"
    "elems A ! 0 ! 0 ! 1 ! 1 = 0" "elems A ! 0 ! 0 ! 2 ! 2 = 0"
    by simp_all
  have "(1::nat) < 3" by simp
  have wf0: "wf_ndarray4 \<lparr>shape = (0, 1, 1, 1), elems = []\<rparr>"
    by (simp add: wf_ndarray4_def)
  have sh0: "shape \<lparr>shape = (0::nat, 1::nat, 1::nat, 1::nat), elems = []\<rparr> = (0, 1, 1, 1)"
    by simp
  from place_tile_in_embeds [OF wf0 sh0, of 1 Suc]
  have empty: "place_tile_in Suc \<lparr>shape = (0, 1, 1, 1), elems = []\<rparr> 1
       = Inr (\<lparr>shape = (0, 1, 1, 1), elems = []\<rparr>, Suc)"
    by simp
  with wf sh run s w v refused wf0 show ?thesis
    unfolding tile_def g_def by (intro conjI exI [of _ A] exI [of _ g']) simp_all
qed

end
